theory Spec2Isabelle
  imports Main
begin

section \<open>Values, errors and the remote world\<close>

text \<open>
  A shallow embedding of \<^verbatim>\<open>teuthology/task/rbd.py\<close>. A role (the specification's
  target) and a host are strings. A configuration value read from YAML is \<open>None\<close>, an
  integer or a string; a properties dictionary is a map from option names to such values.
\<close>

type_synonym role = string
type_synonym host = string

datatype pyval = PNone | PInt int | PStr string

type_synonym props = "string \<rightharpoonup> pyval"

text \<open>
  The exceptions the module can raise: a failed \<^verbatim>\<open>assert\<close> with its message, the
  \<^verbatim>\<open>ValueError\<close> of the tuple unpacking \<^verbatim>\<open>(remote,) = ...\<close>, the \<^verbatim>\<open>TypeError\<close> of
  iterating \<open>None\<close>, the \<^verbatim>\<open>RuntimeError\<close> of a generator that does not yield, the
  failure of a remote command, and the aggregate of exit failures reported by the lifecycle
  stack. \<open>DeviceTimeoutError\<close> is the error kind the specification names for a polling wait
  that exceeds its bound; no statement of the module raises it.
\<close>

datatype error =
    AssertionError string
  | ValueError
  | TypeError
  | RuntimeError string
  | RemoteCommandError
  | DeviceTimeoutError
  | TeardownError "error list"

text \<open>
  The argument list handed to \<^verbatim>\<open>remote.run\<close> is a shell command line. The source builds
  three shapes with \<^verbatim>\<open>run.Raw\<close>: a plain command, \<^verbatim>\<open>a || b\<close>, and
  \<^verbatim>\<open>a && while t; do b; done\<close>. A redirection \<^verbatim>\<open>> file\<close> stays inside the words of
  the plain command.
\<close>

datatype sh =
    Simple "string list"
  | Or sh sh
  | And sh sh
  | While "string list" "string list"

text \<open>
  The world is the trace of what has happened so far, oldest first: a command executed on
  a host, a command started without waiting for it, a call of the helper that writes the
  secret file, and the calls the lifecycle stack makes.
\<close>

datatype event =
    Exec host "string list"
  | Spawn host sh
  | Write_secret host role string
  | Enter string
  | Exit string
  | Body

type_synonym world = "event list"

datatype outcome = Returned world | Raised error world | Hangs

text \<open>
  The context \<^verbatim>\<open>ctx\<close>. \<open>cluster\<close> is \<^verbatim>\<open>ctx.cluster.remotes\<close>: each host with the roles it
  carries. \<open>clients\<close> is what the alias \<open>all\<close> expands to. \<open>status\<close> is the remote
  executor: the exit status of a plain command on a host, which may depend on everything
  that happened before; \<open>stdout\<close> is what the command writes to its standard output.
  \<open>secret_ok\<close> tells whether writing the secret file succeeds.
\<close>

record ctx =
  cluster :: "(host \<times> role list) list"
  clients :: "role list"
  status :: "world \<Rightarrow> host \<Rightarrow> string list \<Rightarrow> nat"
  stdout :: "world \<Rightarrow> host \<Rightarrow> string list \<Rightarrow> string"
  secret_ok :: "world \<Rightarrow> host \<Rightarrow> role \<Rightarrow> bool"

subsection \<open>Python helpers\<close>

function digits :: "nat \<Rightarrow> string" where
  "digits n = (if n < 10 then [''0123456789'' ! n]
               else digits (n div 10) @ [''0123456789'' ! (n mod 10)])"
  by pat_completeness auto
termination
  by (relation "measure id") auto

declare digits.simps [simp del]

text \<open>
  \<^verbatim>\<open>str(v)\<close>, also what \<^verbatim>\<open>'{x}'.format(x=v)\<close> inserts. The words of a command are
  strings: where the module hands a configuration value to \<^verbatim>\<open>remote.run\<close> as it is (the
  image name, the filesystem type), the model writes \<^verbatim>\<open>str\<close> of it, which is the value
  itself for the strings that the defaults and a configuration of names give.
\<close>

definition py_str :: "pyval \<Rightarrow> string" where
  "py_str v = (case v of
       PNone \<Rightarrow> ''None''
     | PStr s \<Rightarrow> s
     | PInt i \<Rightarrow> if i < 0 then CHR ''-'' # digits (nat (- i)) else digits (nat i))"

text \<open>\<^verbatim>\<open>d.get(k, default)\<close> and \<^verbatim>\<open>d.get(k)\<close>.\<close>

definition dict_get :: "props \<Rightarrow> string \<Rightarrow> pyval \<Rightarrow> pyval" where
  "dict_get d k dflt = (case d k of None \<Rightarrow> dflt | Some v \<Rightarrow> v)"

definition dict_get_none :: "props \<Rightarrow> string \<Rightarrow> pyval" where
  "dict_get_none d k = dict_get d k PNone"

text \<open>\<^verbatim>\<open>if properties is None: properties = {}\<close>\<close>

definition or_empty :: "props option \<Rightarrow> props" where
  "or_empty properties = (case properties of None \<Rightarrow> Map.empty | Some p \<Rightarrow> p)"

text \<open>\<^verbatim>\<open>s.startswith(p)\<close>\<close>

definition startswith :: "string \<Rightarrow> string \<Rightarrow> bool" where
  "startswith s p = (take (length p) s = p)"

text \<open>\<^verbatim>\<open>s.rsplit('.')[-1]\<close>: the part after the last dot, or all of \<open>s\<close>.\<close>

definition rsplit_last :: "string \<Rightarrow> string" where
  "rsplit_last s = rev (takeWhile (\<lambda>c. c \<noteq> CHR ''.'') (rev s))"

subsection \<open>Sequencing\<close>

text \<open>
  Statement sequencing with exceptions: the continuation runs only after a normal return.
  \<open>for_each\<close> is a \<^verbatim>\<open>for\<close> loop whose body may raise, which ends the loop.
\<close>

definition and_then :: "outcome \<Rightarrow> (world \<Rightarrow> outcome) \<Rightarrow> outcome" where
  "and_then r k = (case r of Returned w \<Rightarrow> k w | Raised e w \<Rightarrow> Raised e w | Hangs \<Rightarrow> Hangs)"

fun for_each :: "('a \<Rightarrow> world \<Rightarrow> outcome) \<Rightarrow> 'a list \<Rightarrow> world \<Rightarrow> outcome" where
  "for_each f [] w = Returned w"
| "for_each f (x # xs) w = and_then (f x w) (for_each f xs)"

subsection \<open>The remote executor and the shell\<close>

text \<open>
  \<^verbatim>\<open>while t; do b; done\<close>: the test runs; on status 0 the body runs and the loop repeats;
  otherwise the loop ends with the status of the last body run (0 if none). The loop has
  no bound, so it may never return: that is the value \<open>None\<close>.
\<close>

partial_function (option) while_loop ::
    "(world \<Rightarrow> host \<Rightarrow> string list \<Rightarrow> nat) \<Rightarrow> host \<Rightarrow> string list \<Rightarrow> string list \<Rightarrow>
     nat \<Rightarrow> world \<Rightarrow> (nat \<times> world) option" where
  "while_loop st h t b prev w =
     (if st w h t = 0
      then while_loop st h t b (st (w @ [Exec h t]) h b) (w @ [Exec h t, Exec h b])
      else Some (prev, w @ [Exec h t]))"

text \<open>The utility \<^verbatim>\<open>true\<close> exits with status 0 whatever the host does.\<close>

fun sh_eval ::
    "(world \<Rightarrow> host \<Rightarrow> string list \<Rightarrow> nat) \<Rightarrow> host \<Rightarrow> sh \<Rightarrow> world \<Rightarrow> (nat \<times> world) option" where
  "sh_eval st h (Simple args) w =
     Some (if args = [''true''] then 0 else st w h args, w @ [Exec h args])"
| "sh_eval st h (Or a b) w =
     (case sh_eval st h a w of
        None \<Rightarrow> None
      | Some (s, w') \<Rightarrow> if s = 0 then Some (0, w') else sh_eval st h b w')"
| "sh_eval st h (And a b) w =
     (case sh_eval st h a w of
        None \<Rightarrow> None
      | Some (s, w') \<Rightarrow> if s = 0 then sh_eval st h b w' else Some (s, w'))"
| "sh_eval st h (While t b) w = while_loop st h t b 0 w"

text \<open>
  Modelled from the spec: \<^verbatim>\<open>remote.run\<close> of the orchestra package, the Remote Executor.
  It executes the command on the host and waits; a nonzero exit status is a
  \<open>RemoteCommandError\<close>. With \<^verbatim>\<open>wait=False\<close> the command is started and the call returns
  at once, so its status is never looked at.
\<close>

definition remote_run :: "ctx \<Rightarrow> host \<Rightarrow> sh \<Rightarrow> world \<Rightarrow> outcome" where
  "remote_run cx h c w =
     (case sh_eval (status cx) h c w of
        None \<Rightarrow> Hangs
      | Some (s, w') \<Rightarrow> if s = 0 then Returned w' else Raised RemoteCommandError w')"

definition remote_run_nowait :: "ctx \<Rightarrow> host \<Rightarrow> sh \<Rightarrow> world \<Rightarrow> outcome" where
  "remote_run_nowait cx h c w = Returned (w @ [Spawn h c])"

text \<open>
  Modelled from the spec: \<^verbatim>\<open>teuthology.write_secret_file\<close> of the misc module, which the
  mapping step calls before it maps the image. It acts on the host and may fail.
\<close>

definition write_secret_file :: "ctx \<Rightarrow> host \<Rightarrow> role \<Rightarrow> string \<Rightarrow> world \<Rightarrow> outcome" where
  "write_secret_file cx h r path w =
     (if secret_ok cx w h r then Returned (w @ [Write_secret h r path])
      else Raised RemoteCommandError (w @ [Write_secret h r path]))"

text \<open>
  Modelled from the spec: \<^verbatim>\<open>ctx.cluster.only(role).remotes.keys()\<close> of the orchestra
  package, the Topology Resolver: the hosts that carry the role, in cluster order.
\<close>

definition only :: "ctx \<Rightarrow> role \<Rightarrow> host list" where
  "only cx r = map fst (filter (\<lambda>hr. r \<in> set (snd hr)) (cluster cx))"

text \<open>\<^verbatim>\<open>(remote,) = xs\<close> raises \<^verbatim>\<open>ValueError\<close> unless \<open>xs\<close> has exactly one element.\<close>

definition with_remote :: "ctx \<Rightarrow> role \<Rightarrow> (host \<Rightarrow> world \<Rightarrow> outcome) \<Rightarrow> world \<Rightarrow> outcome" where
  "with_remote cx r k w =
     (case only cx r of [remote] \<Rightarrow> k remote w | _ \<Rightarrow> Raised ValueError w)"

section \<open>Configurations\<close>

text \<open>
  A task's configuration is \<open>None\<close>, a list of roles, or a dictionary from roles to
  values. A dictionary is kept as the list \<^verbatim>\<open>config.items()\<close> returns; the steps only
  ever walk that list.
\<close>

datatype 'v config = CNone | CList "role list" | CDict "(role \<times> 'v) list"

text \<open>
  \<^verbatim>\<open>config.items()\<close> for a dictionary and \<^verbatim>\<open>[(role, None) for role in config]\<close> for a
  list; the assertion at the head of each task refuses anything else. \<open>none\<close> is Python's
  \<open>None\<close> in the type of the dictionary's values.
\<close>

definition items :: "'v \<Rightarrow> 'v config \<Rightarrow> (role \<times> 'v) list option" where
  "items none config = (case config of
       CDict d \<Rightarrow> Some d
     | CList l \<Rightarrow> Some (map (\<lambda>r. (r, none)) l)
     | CNone \<Rightarrow> None)"

text \<open>\<^verbatim>\<open>for role in config\<close>: the keys of a dictionary, the elements of a list.\<close>

definition roles_of :: "'v config \<Rightarrow> role list option" where
  "roles_of config = (case config of
       CDict d \<Rightarrow> Some (map fst d)
     | CList l \<Rightarrow> Some l
     | CNone \<Rightarrow> None)"

section \<open>The provisioning steps\<close>

text \<open>
  Each task of the module is a generator used as a context manager. Its enter action is
  the code before \<^verbatim>\<open>yield\<close>, its exit action the code of the \<^verbatim>\<open>finally\<close> block.
\<close>

definition default_image_name :: "role \<Rightarrow> string" where
  "default_image_name r = ''testimage.'' @ r"

text \<open>The words every \<^verbatim>\<open>rbd\<close> invocation of the module starts with.\<close>

definition rbd_words :: "string list" where
  "rbd_words =
     [''LD_LIBRARY_PATH=/tmp/cephtest/binary/usr/local/lib'',
      ''/tmp/cephtest/enable-coredump'',
      ''/tmp/cephtest/binary/usr/local/bin/ceph-coverage'',
      ''/tmp/cephtest/archive/coverage'',
      ''/tmp/cephtest/binary/usr/local/bin/rbd'',
      ''-c'', ''/tmp/cephtest/ceph.conf'']"

subsection \<open>create_image\<close>

definition create_image_name :: "role \<Rightarrow> props option \<Rightarrow> pyval" where
  "create_image_name r properties =
     dict_get (or_empty properties) ''image_name'' (PStr (default_image_name r))"

definition create_image_size :: "props option \<Rightarrow> pyval" where
  "create_image_size properties = dict_get (or_empty properties) ''image_size'' (PInt 10240)"

definition create_image_fmt :: "props option \<Rightarrow> pyval" where
  "create_image_fmt properties = dict_get (or_empty properties) ''image_format'' (PInt 1)"

definition create_words :: "role \<Rightarrow> props option \<Rightarrow> string list" where
  "create_words r properties =
     rbd_words @
       [''-p'', ''rbd'', ''create'',
        ''--format'', py_str (create_image_fmt properties),
        ''--size'', py_str (create_image_size properties),
        py_str (create_image_name r properties)]"

definition rm_words :: "role \<Rightarrow> props option \<Rightarrow> string list" where
  "rm_words r properties =
     rbd_words @ [''-p'', ''rbd'', ''rm'', py_str (create_image_name r properties)]"

definition create_image_one :: "ctx \<Rightarrow> role \<times> props option \<Rightarrow> world \<Rightarrow> outcome" where
  "create_image_one cx rp w =
     with_remote cx (fst rp) (\<lambda>remote. remote_run cx remote (Simple (create_words (fst rp) (snd rp)))) w"

definition delete_image_one :: "ctx \<Rightarrow> role \<times> props option \<Rightarrow> world \<Rightarrow> outcome" where
  "delete_image_one cx rp w =
     with_remote cx (fst rp) (\<lambda>remote. remote_run cx remote (Simple (rm_words (fst rp) (snd rp)))) w"

definition create_image_enter :: "ctx \<Rightarrow> props option config \<Rightarrow> world \<Rightarrow> outcome" where
  "create_image_enter cx config w =
     (case items None config of
        None \<Rightarrow> Raised (AssertionError
          ''task create_image only supports a list or dictionary for configuration'') w
      | Some images \<Rightarrow> for_each (create_image_one cx) images w)"

text \<open>
  An exit action runs only after its enter action has returned, so it never meets a
  configuration that the assertion of the enter refuses; there it does nothing.
\<close>

definition create_image_exit :: "ctx \<Rightarrow> props option config \<Rightarrow> world \<Rightarrow> outcome" where
  "create_image_exit cx config w =
     (case items None config of
        None \<Rightarrow> Returned w
      | Some images \<Rightarrow> for_each (delete_image_one cx) images w)"

subsection \<open>modprobe\<close>

definition modprobe_one :: "ctx \<Rightarrow> role \<Rightarrow> world \<Rightarrow> outcome" where
  "modprobe_one cx r w =
     with_remote cx r (\<lambda>remote. remote_run cx remote (Simple [''sudo'', ''modprobe'', ''rbd''])) w"

definition unload_words :: "string list" where
  "unload_words = [''sudo'', ''modprobe'', ''-r'', ''rbd'']"

definition unload_cmd :: sh where
  "unload_cmd = Or (Simple unload_words) (Simple [''true''])"

definition modprobe_unload_one :: "ctx \<Rightarrow> role \<Rightarrow> world \<Rightarrow> outcome" where
  "modprobe_unload_one cx r w =
     with_remote cx r (\<lambda>remote. remote_run cx remote unload_cmd) w"

definition modprobe_enter :: "ctx \<Rightarrow> 'v config \<Rightarrow> world \<Rightarrow> outcome" where
  "modprobe_enter cx config w =
     (case roles_of config of
        None \<Rightarrow> Raised TypeError w
      | Some rs \<Rightarrow> for_each (modprobe_one cx) rs w)"

definition modprobe_exit :: "ctx \<Rightarrow> 'v config \<Rightarrow> world \<Rightarrow> outcome" where
  "modprobe_exit cx config w =
     (case roles_of config of
        None \<Rightarrow> Raised TypeError w
      | Some rs \<Rightarrow> for_each (modprobe_unload_one cx) rs w)"

subsection \<open>dev_create\<close>

text \<open>\<^verbatim>\<open>if image is None: image = default_image_name(role)\<close>\<close>

definition image_or_default :: "role \<Rightarrow> pyval \<Rightarrow> pyval" where
  "image_or_default r img = (if img = PNone then PStr (default_image_name r) else img)"

definition dev_path :: "pyval \<Rightarrow> string" where
  "dev_path img = ''/dev/rbd/rbd/'' @ py_str img"

definition udev_rule :: string where
  \<open>udev_rule = ''KERNEL=="rbd[0-9]*", PROGRAM="/tmp/cephtest/binary/usr/local/bin/ceph-rbdnamer %n", SYMLINK+="rbd/%c{1}/%c{2}"''\<close>

definition map_words :: "role \<Rightarrow> string \<Rightarrow> pyval \<Rightarrow> string list" where
  "map_words r secretfile img =
     [''sudo''] @ rbd_words @
       [''--user'', rsplit_last r, ''--secret'', secretfile, ''-p'', ''rbd'', ''map'', py_str img]"

definition test_missing :: "pyval \<Rightarrow> string list" where
  "test_missing img = [''test'', ''!'', ''-e'', dev_path img]"

definition test_exists :: "pyval \<Rightarrow> string list" where
  "test_exists img = [''test'', ''-e'', dev_path img]"

definition map_cmd :: "role \<Rightarrow> string \<Rightarrow> pyval \<Rightarrow> sh" where
  "map_cmd r secretfile img =
     And (Simple (map_words r secretfile img)) (While (test_missing img) [''sleep'', ''1''])"

definition unmap_words :: "pyval \<Rightarrow> string list" where
  "unmap_words img = [''sudo''] @ rbd_words @ [''-p'', ''rbd'', ''unmap'', dev_path img]"

definition unmap_cmd :: "pyval \<Rightarrow> sh" where
  "unmap_cmd img =
     And (Simple (unmap_words img)) (While (test_exists img) [''sleep'', ''1''])"

definition rm_rule_cmd :: sh where
  "rm_rule_cmd = Simple [''sudo'', ''rm'', ''-f'', ''/etc/udev/rules.d/51-rbd.rules'']"

definition echo_rule_words :: "string list" where
  "echo_rule_words = [''echo'', udev_rule, ''>'', ''/tmp/cephtest/51-rbd.rules'']"

definition mv_rule_words :: "string list" where
  "mv_rule_words = [''sudo'', ''mv'', ''/tmp/cephtest/51-rbd.rules'', ''/etc/udev/rules.d/'']"

definition secret_path :: "role \<Rightarrow> string" where
  "secret_path r = ''/tmp/cephtest/data/'' @ r @ ''.secret''"

definition dev_create_one :: "ctx \<Rightarrow> role \<times> pyval \<Rightarrow> world \<Rightarrow> outcome" where
  "dev_create_one cx ri w =
     (let r = fst ri;
          img = image_or_default r (snd ri);
          secretfile = secret_path r
      in with_remote cx r (\<lambda>remote w0.
           and_then (remote_run cx remote (Simple echo_rule_words) w0) (\<lambda>w1.
           and_then (remote_run cx remote (Simple mv_rule_words) w1) (\<lambda>w2.
           and_then (write_secret_file cx remote r secretfile w2) (\<lambda>w3.
           remote_run cx remote (map_cmd r secretfile img) w3)))) w)"

definition dev_unmap_one :: "ctx \<Rightarrow> role \<times> pyval \<Rightarrow> world \<Rightarrow> outcome" where
  "dev_unmap_one cx ri w =
     (let r = fst ri;
          img = image_or_default r (snd ri)
      in with_remote cx r (\<lambda>remote w0.
           and_then (remote_run cx remote (unmap_cmd img) w0) (\<lambda>w1.
           remote_run_nowait cx remote rm_rule_cmd w1)) w)"

definition dev_create_enter :: "ctx \<Rightarrow> pyval config \<Rightarrow> world \<Rightarrow> outcome" where
  "dev_create_enter cx config w =
     (case items PNone config of
        None \<Rightarrow> Raised (AssertionError
          ''task dev_create only supports a list or dictionary for configuration'') w
      | Some role_images \<Rightarrow> for_each (dev_create_one cx) role_images w)"

definition dev_create_exit :: "ctx \<Rightarrow> pyval config \<Rightarrow> world \<Rightarrow> outcome" where
  "dev_create_exit cx config w =
     (case items PNone config of
        None \<Rightarrow> Returned w
      | Some role_images \<Rightarrow> for_each (dev_unmap_one cx) role_images w)"

subsection \<open>mkfs\<close>

definition mkfs_image :: "role \<Rightarrow> props option \<Rightarrow> pyval" where
  "mkfs_image r properties =
     dict_get (or_empty properties) ''image_name'' (PStr (default_image_name r))"

definition mkfs_fs :: "props option \<Rightarrow> pyval" where
  "mkfs_fs properties = dict_get (or_empty properties) ''fs_type'' (PStr ''ext3'')"

definition mkfs_words :: "role \<Rightarrow> props option \<Rightarrow> string list" where
  "mkfs_words r properties =
     [''sudo'', ''mkfs'', ''-t'', py_str (mkfs_fs properties), dev_path (mkfs_image r properties)]"

definition mkfs_one :: "ctx \<Rightarrow> role \<times> props option \<Rightarrow> world \<Rightarrow> outcome" where
  "mkfs_one cx rp w =
     with_remote cx (fst rp) (\<lambda>remote. remote_run cx remote (Simple (mkfs_words (fst rp) (snd rp)))) w"

definition mkfs_enter :: "ctx \<Rightarrow> props option config \<Rightarrow> world \<Rightarrow> outcome" where
  "mkfs_enter cx config w =
     (case items None config of
        None \<Rightarrow> Raised (AssertionError
          ''task mkfs must be configured with a list or dictionary'') w
      | Some images \<Rightarrow> for_each (mkfs_one cx) images w)"

text \<open>Nothing follows the \<^verbatim>\<open>yield\<close> of \<^verbatim>\<open>mkfs\<close>: its exit does nothing.\<close>

definition mkfs_exit :: "ctx \<Rightarrow> props option config \<Rightarrow> world \<Rightarrow> outcome" where
  "mkfs_exit cx config w = Returned w"

subsection \<open>mount\<close>

definition PREFIX :: string where
  "PREFIX = ''client.''"

text \<open>\<^verbatim>\<open>strip_client_prefix\<close>: the assertion, then \<^verbatim>\<open>role[len(PREFIX):]\<close>.\<close>

definition strip_client_prefix :: "role \<Rightarrow> string option" where
  "strip_client_prefix r =
     (if startswith r PREFIX then Some (drop (length PREFIX) r) else None)"

definition mnt_path :: "string \<Rightarrow> string" where
  "mnt_path ident = ''/tmp/cephtest/mnt.'' @ ident"

definition mkdir_words :: "string \<Rightarrow> string list" where
  "mkdir_words ident = [''mkdir'', ''--'', mnt_path ident]"

definition mount_words :: "pyval \<Rightarrow> string \<Rightarrow> string list" where
  "mount_words img ident = [''sudo'', ''mount'', dev_path img, mnt_path ident]"

definition mount_one :: "ctx \<Rightarrow> role \<times> pyval \<Rightarrow> world \<Rightarrow> outcome" where
  "mount_one cx ri w =
     (let r = fst ri;
          img = image_or_default r (snd ri)
      in with_remote cx r (\<lambda>remote w0.
           case strip_client_prefix r of
             None \<Rightarrow> Raised (AssertionError []) w0
           | Some ident \<Rightarrow>
               and_then (remote_run cx remote (Simple (mkdir_words ident)) w0) (\<lambda>w1.
               remote_run cx remote (Simple (mount_words img ident)) w1)) w)"

definition umount_one :: "ctx \<Rightarrow> role \<times> pyval \<Rightarrow> world \<Rightarrow> outcome" where
  "umount_one cx ri w =
     (let r = fst ri;
          img = image_or_default r (snd ri)
      in with_remote cx r (\<lambda>remote w0.
           case strip_client_prefix r of
             None \<Rightarrow> Raised (AssertionError []) w0
           | Some ident \<Rightarrow>
               and_then (remote_run cx remote (Simple [''sudo'', ''umount'', mnt_path ident]) w0) (\<lambda>w1.
               remote_run cx remote (Simple [''rmdir'', ''--'', mnt_path ident]) w1)) w)"

definition mount_enter :: "ctx \<Rightarrow> pyval config \<Rightarrow> world \<Rightarrow> outcome" where
  "mount_enter cx config w =
     (case items PNone config of
        None \<Rightarrow> Raised (AssertionError
          ''task mount must be configured with a list or dictionary'') w
      | Some role_images \<Rightarrow> for_each (mount_one cx) role_images w)"

definition mount_exit :: "ctx \<Rightarrow> pyval config \<Rightarrow> world \<Rightarrow> outcome" where
  "mount_exit cx config w =
     (case items PNone config of
        None \<Rightarrow> Returned w
      | Some role_images \<Rightarrow> for_each (umount_one cx) role_images w)"

section \<open>The lifecycle stack\<close>

text \<open>
  A provisioning step is a labelled pair of actions. The stack records each call it makes
  in the trace: \<open>Enter l\<close> when it calls the enter action of the step labelled \<open>l\<close>,
  \<open>Exit l\<close> when the exit action of that step has run (returned or raised), \<open>Body\<close> when
  it calls the workload.
\<close>

datatype step = Step (step_label: string) (step_enter: "world \<Rightarrow> outcome") (step_exit: "world \<Rightarrow> outcome")

text \<open>
  Modelled from the spec: \<^verbatim>\<open>contextutil.nested\<close>, the Lifecycle Stack. The enters run in
  list order; each step whose enter has completed is pushed on the stack of entered
  steps; the first failing enter ends the loop.
\<close>

fun enter_all :: "step list \<Rightarrow> step list \<Rightarrow> world \<Rightarrow> step list \<times> outcome" where
  "enter_all [] entered w = (entered, Returned w)"
| "enter_all (s # ss) entered w =
     (case step_enter s (w @ [Enter (step_label s)]) of
        Returned w' \<Rightarrow> enter_all ss (s # entered) w'
      | Raised e w' \<Rightarrow> (entered, Raised e w')
      | Hangs \<Rightarrow> (entered, Hangs))"

text \<open>
  Modelled from the spec: the unwind of the Lifecycle Stack. Every entered step's exit
  runs, last entered first; an exit that fails does not stop the unwind, its failure is
  collected.
\<close>

fun unwind :: "step list \<Rightarrow> error list \<Rightarrow> world \<Rightarrow> (error list \<times> world) option" where
  "unwind [] errs w = Some (errs, w)"
| "unwind (s # entered) errs w =
     (case step_exit s w of
        Returned w' \<Rightarrow> unwind entered errs (w' @ [Exit (step_label s)])
      | Raised e w' \<Rightarrow> unwind entered (errs @ [e]) (w' @ [Exit (step_label s)])
      | Hangs \<Rightarrow> None)"

text \<open>
  Modelled from the spec: the enter half of a stack. When an enter fails, the steps
  entered so far are unwound and the original failure is propagated, whatever the unwind
  met.
\<close>

definition stack_enter :: "step list \<Rightarrow> world \<Rightarrow> step list \<times> outcome" where
  "stack_enter steps w =
     (case enter_all steps [] w of
        (entered, Returned w1) \<Rightarrow> (entered, Returned w1)
      | (entered, Raised e w1) \<Rightarrow>
          (case unwind entered [] w1 of
             None \<Rightarrow> ([], Hangs)
           | Some (errs, w2) \<Rightarrow> ([], Raised e w2))
      | (entered, Hangs) \<Rightarrow> ([], Hangs))"

text \<open>
  Modelled from the spec: the exit half after a body that returned. Exit failures are
  aggregated into one combined failure.
\<close>

definition stack_exit :: "step list \<Rightarrow> world \<Rightarrow> outcome" where
  "stack_exit entered w =
     (case unwind entered [] w of
        None \<Rightarrow> Hangs
      | Some (errs, w') \<Rightarrow> if errs = [] then Returned w' else Raised (TeardownError errs) w')"

text \<open>
  Modelled from the spec: \<^verbatim>\<open>run(steps, body)\<close>. If all enters succeed the body runs;
  whether it returns or fails, every step is exited in reverse order; a failure of the
  body is the one propagated.
\<close>

definition run_stack :: "step list \<Rightarrow> (world \<Rightarrow> outcome) \<Rightarrow> world \<Rightarrow> outcome" where
  "run_stack steps body w =
     (case stack_enter steps w of
        (entered, Returned w1) \<Rightarrow>
          (case body (w1 @ [Body]) of
             Returned w2 \<Rightarrow> stack_exit entered w2
           | Raised e w2 \<Rightarrow>
               (case unwind entered [] w2 of
                  None \<Rightarrow> Hangs
                | Some (errs, w3) \<Rightarrow> Raised e w3)
           | Hangs \<Rightarrow> Hangs)
      | (entered, r) \<Rightarrow> r)"

text \<open>
  Modelled from the spec: a step that is itself a stack. Its enter is the enter half of
  the inner stack, its exit unwinds the inner steps.
\<close>

definition composite :: "string \<Rightarrow> step list \<Rightarrow> step" where
  "composite l steps = Step l (\<lambda>w. snd (stack_enter steps w)) (stack_exit (rev steps))"

section \<open>The orchestrator\<close>

definition create_image :: "ctx \<Rightarrow> props option config \<Rightarrow> step" where
  "create_image cx config =
     Step ''create_image'' (create_image_enter cx config) (create_image_exit cx config)"

definition modprobe :: "ctx \<Rightarrow> 'v config \<Rightarrow> step" where
  "modprobe cx config = Step ''modprobe'' (modprobe_enter cx config) (modprobe_exit cx config)"

definition dev_create :: "ctx \<Rightarrow> pyval config \<Rightarrow> step" where
  "dev_create cx config =
     Step ''dev_create'' (dev_create_enter cx config) (dev_create_exit cx config)"

definition mkfs :: "ctx \<Rightarrow> props option config \<Rightarrow> step" where
  "mkfs cx config = Step ''mkfs'' (mkfs_enter cx config) (mkfs_exit cx config)"

definition mount :: "ctx \<Rightarrow> pyval config \<Rightarrow> step" where
  "mount cx config = Step ''mount'' (mount_enter cx config) (mount_exit cx config)"

text \<open>
  Modelled from the spec: \<^verbatim>\<open>teuthology.replace_all_with_clients\<close> of the misc module. The
  alias \<open>all\<close> expands to every client role, each with the alias's properties.
\<close>

definition replace_all_with_clients :: "ctx \<Rightarrow> (role \<times> 'v) list \<Rightarrow> (role \<times> 'v) list" where
  "replace_all_with_clients cx d =
     concat (map (\<lambda>kv. if fst kv = ''all'' then map (\<lambda>r. (r, snd kv)) (clients cx) else [kv]) d)"

text \<open>The head of \<^verbatim>\<open>task\<close>: \<open>None\<close> means \<open>all\<close>, and a dictionary has its alias expanded.\<close>

definition task_norm_config :: "ctx \<Rightarrow> props option config \<Rightarrow> props option config" where
  "task_norm_config cx config =
     (case (case config of CNone \<Rightarrow> CDict [(''all'', None)] | c \<Rightarrow> c) of
        CDict d \<Rightarrow> CDict (replace_all_with_clients cx d)
      | c \<Rightarrow> c)"

text \<open>
  \<^verbatim>\<open>role_images[role] = properties.get('image_name')\<close> for a dictionary; a list is passed
  on as it is.
\<close>

definition task_role_images :: "props option config \<Rightarrow> pyval config" where
  "task_role_images norm_config =
     (case norm_config of
        CDict d \<Rightarrow> CDict (map (\<lambda>rp. (fst rp, dict_get_none (or_empty (snd rp)) ''image_name'')) d)
      | CList l \<Rightarrow> CList l
      | CNone \<Rightarrow> CNone)"

definition task_steps :: "ctx \<Rightarrow> props option config \<Rightarrow> step list" where
  "task_steps cx config =
     (let norm_config = task_norm_config cx config;
          role_images = task_role_images norm_config
      in [create_image cx norm_config,
          modprobe cx norm_config,
          dev_create cx role_images,
          mkfs cx norm_config,
          mount cx role_images])"

text \<open>\<^verbatim>\<open>with task(ctx, config): body\<close>\<close>

definition task :: "ctx \<Rightarrow> props option config \<Rightarrow> (world \<Rightarrow> outcome) \<Rightarrow> world \<Rightarrow> outcome" where
  "task cx config body w = run_stack (task_steps cx config) body w"

subsection \<open>run_xfstests\<close>

text \<open>\<^verbatim>\<open>s.rstrip('\n')\<close>\<close>

definition rstrip_nl :: "string \<Rightarrow> string" where
  "rstrip_nl s = rev (dropWhile (\<lambda>c. c = CHR 0x0A) (rev s))"

text \<open>
  An action that also returns a value. A plain command always ends, so there is no
  outcome that hangs.
\<close>

datatype 'a result = Ok 'a world | Err error world

text \<open>
  Modelled from the spec: \<^verbatim>\<open>ctx.cluster.only(role).run(args, stdout)\<close> of the orchestra
  package: the command runs on every host that carries the role, in cluster order, and
  the outputs are collected in one buffer.
\<close>

fun run_capture :: "ctx \<Rightarrow> string list \<Rightarrow> host list \<Rightarrow> string \<Rightarrow> world \<Rightarrow> string result" where
  "run_capture cx args [] acc w = Ok acc w"
| "run_capture cx args (h # hs) acc w =
     (if status cx w h args = 0
      then run_capture cx args hs (acc @ stdout cx w h args) (w @ [Exec h args])
      else Err RemoteCommandError (w @ [Exec h args]))"

definition canonical_path :: "ctx \<Rightarrow> role \<Rightarrow> pyval \<Rightarrow> world \<Rightarrow> string result" where
  "canonical_path cx r path w =
     (case run_capture cx [''readlink'', ''-f'', py_str path] (only cx r) [] w of
        Ok out w' \<Rightarrow> Ok (rstrip_nl out) w'
      | Err e w' \<Rightarrow> Err e w')"

definition test_path :: string where
  "test_path = ''/tmp/cephtest/run_xfstests.sh''"

definition test_url :: string where
  "test_url = ''https://raw.github.com/ceph/ceph/master/qa/run_xfstests.sh''"

text \<open>\<^verbatim>\<open>if tests:\<close>: \<open>None\<close>, zero and the empty string count as false.\<close>

definition truthy :: "pyval \<Rightarrow> bool" where
  "truthy v = (case v of PNone \<Rightarrow> False | PInt i \<Rightarrow> i \<noteq> 0 | PStr s \<Rightarrow> s \<noteq> [])"

definition xfstests_words :: "pyval \<Rightarrow> string \<Rightarrow> string \<Rightarrow> pyval \<Rightarrow> string list" where
  "xfstests_words fs_type test_dev scratch_dev tests =
     [''LD_LIBRARY_PATH=/tmp/cephtest/binary/usr/local/lib'',
      ''/tmp/cephtest/enable-coredump'',
      ''/tmp/cephtest/binary/usr/local/bin/ceph-coverage'',
      ''/tmp/cephtest/archive/coverage'',
      ''/usr/bin/sudo'',
      ''/bin/bash'',
      test_path,
      ''-f'', py_str fs_type,
      ''-t'', test_dev,
      ''-s'', scratch_dev] @ (if truthy tests then [py_str tests] else [])"

definition run_xfstests_one :: "ctx \<Rightarrow> role \<times> props \<Rightarrow> world \<Rightarrow> outcome" where
  "run_xfstests_one cx rp w =
     (let r = fst rp; properties = snd rp in
      if dict_get_none properties ''test_dev'' = PNone
      then Raised (AssertionError ''task run_xfstests requires test_dev to be defined'') w
      else (case canonical_path cx r (dict_get_none properties ''test_dev'') w of
        Err e w1 \<Rightarrow> Raised e w1
      | Ok test_dev w1 \<Rightarrow>
          (if dict_get_none properties ''scratch_dev'' = PNone
           then Raised (AssertionError ''task run_xfstests requires scratch_dev to be defined'') w1
           else (case canonical_path cx r (dict_get_none properties ''scratch_dev'') w1 of
             Err e w2 \<Rightarrow> Raised e w2
           | Ok scratch_dev w2 \<Rightarrow>
               with_remote cx r (\<lambda>remote w3.
                 and_then (remote_run cx remote
                     (Simple [''wget'', ''-O'', test_path, ''--'', test_url]) w3) (\<lambda>w4.
                 remote_run cx remote
                   (Simple (xfstests_words (dict_get_none properties ''fs_type'') test_dev
                      scratch_dev (dict_get_none properties ''tests''))) w4)) w2))))"

definition run_xfstests_rm_one :: "ctx \<Rightarrow> role \<times> props \<Rightarrow> world \<Rightarrow> outcome" where
  "run_xfstests_rm_one cx rp w =
     with_remote cx (fst rp) (\<lambda>remote. remote_run cx remote (Simple [''rm'', ''-f'', test_path])) w"

text \<open>The configuration of \<^verbatim>\<open>run_xfstests\<close> is a dictionary: \<^verbatim>\<open>config.items()\<close>.\<close>

definition run_xfstests_enter :: "ctx \<Rightarrow> (role \<times> props) list \<Rightarrow> world \<Rightarrow> outcome" where
  "run_xfstests_enter cx config w = for_each (run_xfstests_one cx) config w"

definition run_xfstests_exit :: "ctx \<Rightarrow> (role \<times> props) list \<Rightarrow> world \<Rightarrow> outcome" where
  "run_xfstests_exit cx config w = for_each (run_xfstests_rm_one cx) config w"

definition run_xfstests :: "ctx \<Rightarrow> (role \<times> props) list \<Rightarrow> step" where
  "run_xfstests cx config =
     Step ''run_xfstests'' (run_xfstests_enter cx config) (run_xfstests_exit cx config)"

subsection \<open>xfstests\<close>

text \<open>
  The head of \<^verbatim>\<open>xfstests\<close>: \<open>None\<close> means \<open>all\<close>; a dictionary has its alias expanded and
  gives its items, a list gives each role with \<open>None\<close>.
\<close>

definition xfstests_runs :: "ctx \<Rightarrow> props option config \<Rightarrow> (role \<times> props option) list" where
  "xfstests_runs cx config =
     (case (case config of CNone \<Rightarrow> CDict [(''all'', None)] | c \<Rightarrow> c) of
        CDict d \<Rightarrow> replace_all_with_clients cx d
      | CList l \<Rightarrow> map (\<lambda>r. (r, None)) l
      | CNone \<Rightarrow> [])"

text \<open>
  The inner loop over \<^verbatim>\<open>ctx.cluster.remotes.items()\<close> for one role: every host carrying
  the role must not be in \<open>running_xfstests\<close> yet, and is then added to it.
\<close>

fun claim_hosts :: "role \<Rightarrow> (host \<times> role list) list \<Rightarrow> host list \<Rightarrow> error + host list" where
  "claim_hosts r [] running = Inr running"
| "claim_hosts r (hr # rest) running =
     (if r \<in> set (snd hr)
      then (if fst hr \<in> set running
            then Inl (AssertionError ''task xfstests allows only one instance at a time per host'')
            else claim_hosts r rest (fst hr # running))
      else claim_hosts r rest running)"

text \<open>The loop over the runs that precedes all provisioning; \<open>None\<close> when no assertion fails.\<close>

fun xfstests_check :: "ctx \<Rightarrow> (role \<times> 'v) list \<Rightarrow> host list \<Rightarrow> error option" where
  "xfstests_check cx [] running = None"
| "xfstests_check cx (rp # runs) running =
     (if \<not> startswith (fst rp) ''client.''
      then Some (AssertionError ''task xfstests can only run on client nodes'')
      else case claim_hosts (fst rp) (cluster cx) running of
             Inl e \<Rightarrow> Some e
           | Inr running' \<Rightarrow> xfstests_check cx runs running')"

definition xfstests_test_image :: "props \<Rightarrow> pyval" where
  "xfstests_test_image properties = dict_get properties ''test_image'' (PStr ''test_image'')"

definition xfstests_test_size :: "props \<Rightarrow> pyval" where
  "xfstests_test_size properties = dict_get properties ''test_size'' (PInt 1000)"

definition xfstests_scratch_image :: "props \<Rightarrow> pyval" where
  "xfstests_scratch_image properties =
     dict_get properties ''scratch_image'' (PStr ''scratch_image'')"

definition xfstests_scratch_size :: "props \<Rightarrow> pyval" where
  "xfstests_scratch_size properties = dict_get properties ''scratch_size'' (PInt 1000)"

definition test_image_config :: "props \<Rightarrow> props" where
  "test_image_config properties =
     [''image_name'' \<mapsto> xfstests_test_image properties,
      ''image_size'' \<mapsto> xfstests_test_size properties]"

definition scratch_image_config :: "props \<Rightarrow> props" where
  "scratch_image_config properties =
     [''image_name'' \<mapsto> xfstests_scratch_image properties,
      ''image_size'' \<mapsto> xfstests_scratch_size properties]"

definition test_config :: "props \<Rightarrow> props" where
  "test_config properties =
     [''test_dev'' \<mapsto> PStr (dev_path (xfstests_test_image properties)),
      ''scratch_dev'' \<mapsto> PStr (dev_path (xfstests_scratch_image properties)),
      ''fs_type'' \<mapsto> dict_get properties ''fs_type'' (PStr ''xfs''),
      ''tests'' \<mapsto> dict_get_none properties ''tests'']"

text \<open>The stack \<^verbatim>\<open>xfstests\<close> builds for one run.\<close>

definition xfstests_steps :: "ctx \<Rightarrow> role \<Rightarrow> props option \<Rightarrow> step list" where
  "xfstests_steps cx r properties =
     (let properties = or_empty properties in
      [create_image cx (CDict [(r, Some (test_image_config properties))]),
       create_image cx (CDict [(r, Some (scratch_image_config properties))]),
       modprobe cx (CDict [(r, PNone)]),
       dev_create cx (CDict [(r, xfstests_test_image properties)]),
       dev_create cx (CDict [(r, xfstests_scratch_image properties)]),
       run_xfstests cx [(r, test_config properties)]])"

text \<open>
  Entering \<^verbatim>\<open>with xfstests(ctx, config)\<close> runs the generator up to its first \<^verbatim>\<open>yield\<close>:
  the checks over all runs, then the enter half of the stack of the first run. A
  generator that ends without a \<^verbatim>\<open>yield\<close> is a \<^verbatim>\<open>RuntimeError\<close> of the context manager.
\<close>

definition xfstests_enter :: "ctx \<Rightarrow> props option config \<Rightarrow> world \<Rightarrow> outcome" where
  "xfstests_enter cx config w =
     (let runs = xfstests_runs cx config in
      case xfstests_check cx runs [] of
        Some e \<Rightarrow> Raised e w
      | None \<Rightarrow>
          (case runs of
             [] \<Rightarrow> Raised (RuntimeError ''generator didn't yield'') w
           | rp # _ \<Rightarrow> snd (stack_enter (xfstests_steps cx (fst rp) (snd rp)) w)))"

section \<open>Resolved properties\<close>

text \<open>
  The properties one target ends up with, each field read the way the steps read it:
  the name, size and format as \<^verbatim>\<open>create_image\<close> does, the filesystem type as
  \<^verbatim>\<open>mkfs\<close> does.
\<close>

definition resolved :: "role \<Rightarrow> props option \<Rightarrow> props" where
  "resolved r properties =
     [''image_name'' \<mapsto> create_image_name r properties,
      ''image_size'' \<mapsto> create_image_size properties,
      ''image_format'' \<mapsto> create_image_fmt properties,
      ''fs_type'' \<mapsto> mkfs_fs properties]"

section \<open>Reading a trace\<close>

text \<open>The calls of the lifecycle stack in a trace, in order.\<close>

fun is_call :: "event \<Rightarrow> bool" where
  "is_call (Enter l) = True"
| "is_call (Exit l) = True"
| "is_call Body = True"
| "is_call (Exec h args) = False"
| "is_call (Spawn h c) = False"
| "is_call (Write_secret h r p) = False"

definition calls :: "world \<Rightarrow> event list" where
  "calls w = filter is_call w"

text \<open>The exit that answers an enter.\<close>

fun mirror :: "event \<Rightarrow> event" where
  "mirror (Enter l) = Exit l"
| "mirror e = e"

text \<open>The world an outcome ends in, if the action ended at all.\<close>

definition ends_in :: "outcome \<Rightarrow> world \<Rightarrow> bool" where
  "ends_in r w' = (case r of Returned w \<Rightarrow> w = w' | Raised e w \<Rightarrow> w = w' | Hangs \<Rightarrow> False)"

text \<open>An action always ends when in no world it waits forever.\<close>

definition always_ends :: "(world \<Rightarrow> outcome) \<Rightarrow> bool" where
  "always_ends f = (\<forall>w. f w \<noteq> Hangs)"

text \<open>An action is transparent when it leaves the calls of the trace as they are.\<close>

definition transparent :: "(world \<Rightarrow> outcome) \<Rightarrow> bool" where
  "transparent f = (\<forall>w w'. ends_in (f w) w' \<longrightarrow> calls w' = calls w)"

text \<open>
  A step is bracketed by the calls \<open>es\<close> when its enter, if it returns, adds exactly \<open>es\<close>
  and its exit, if it ends, adds exactly their mirror image in reverse. A step of the
  module is bracketed by no calls; a composite step by the calls of its inner stack.
\<close>

definition bracketed :: "step \<Rightarrow> event list \<Rightarrow> bool" where
  "bracketed s es =
     ((\<forall>w w'. step_enter s w = Returned w' \<longrightarrow> calls w' = calls w @ es) \<and>
      (\<forall>w w'. ends_in (step_exit s w) w' \<longrightarrow> calls w' = calls w @ rev (map mirror es)))"

text \<open>The enter calls of a stack whose steps are bracketed by \<open>E\<close>.\<close>

definition marks :: "(step \<Rightarrow> event list) \<Rightarrow> step list \<Rightarrow> event list" where
  "marks E steps = concat (map (\<lambda>s. Enter (step_label s) # E s) steps)"

section \<open>Concrete runs\<close>

text \<open>
  A cluster of one host carrying one client, on which every command succeeds; the two
  polling tests report at once that the awaited state is reached (status 1 ends a loop).
\<close>

definition cx_ok :: ctx where
  "cx_ok = \<lparr>cluster = [(''h1'', [''client.0''])], clients = [''client.0''],
     status = (\<lambda>w h args. if hd args = ''test'' then 1 else 0),
     stdout = (\<lambda>w h args. []), secret_ok = (\<lambda>w h r. True)\<rparr>"

text \<open>The same cluster, on which \<^verbatim>\<open>mkfs\<close> fails.\<close>

definition cx_mkfs_fails :: ctx where
  "cx_mkfs_fails = \<lparr>cluster = [(''h1'', [''client.0''])], clients = [''client.0''],
     status = (\<lambda>w h args. if hd args = ''test'' \<or> take 2 args = [''sudo'', ''mkfs''] then 1 else 0),
     stdout = (\<lambda>w h args. []), secret_ok = (\<lambda>w h r. True)\<rparr>"


text \<open>
  One host carrying three clients; the first command of a run succeeds and every later
  one fails.
\<close>

definition cx_second_fails :: ctx where
  "cx_second_fails = \<lparr>cluster = [(''h1'', [''client.0'', ''client.1'', ''client.2''])],
     clients = [''client.0'', ''client.1'', ''client.2''],
     status = (\<lambda>w h args. if length w < 2 then 0 else 1),
     stdout = (\<lambda>w h args. []), secret_ok = (\<lambda>w h r. True)\<rparr>"

text \<open>
  One host carrying one client, on which every command succeeds, the tests of the polling
  loops included: the symlink is never seen to change.
\<close>

definition cx_symlink_stays :: ctx where
  "cx_symlink_stays = \<lparr>cluster = [(''h1'', [''client.0''])], clients = [''client.0''],
     status = (\<lambda>w h args. 0), stdout = (\<lambda>w h args. []), secret_ok = (\<lambda>w h r. True)\<rparr>"

text \<open>
  One host carrying a client and an object store daemon, on which every command fails.
\<close>

definition cx_all_fail :: ctx where
  "cx_all_fail = \<lparr>cluster = [(''h1'', [''client.0'', ''osd.0''])], clients = [''client.0''],
     status = (\<lambda>w h args. 1), stdout = (\<lambda>w h args. []), secret_ok = (\<lambda>w h r. False)\<rparr>"

text \<open>The same cluster, on which only the first command of a run succeeds.\<close>

definition cx_first_only :: ctx where
  "cx_first_only = \<lparr>cluster = [(''h1'', [''client.0'', ''osd.0''])], clients = [''client.0''],
     status = (\<lambda>w h args. if w = [] then 0 else 1), stdout = (\<lambda>w h args. []),
     secret_ok = (\<lambda>w h r. True)\<rparr>"

text \<open>
  One host carrying an object store daemon and two clients, on which every command
  succeeds.
\<close>

definition cx_shared_host :: ctx where
  "cx_shared_host = \<lparr>cluster = [(''h1'', [''osd.0'', ''client.0'', ''client.1''])],
     clients = [''client.0'', ''client.1''],
     status = (\<lambda>w h args. 0), stdout = (\<lambda>w h args. []), secret_ok = (\<lambda>w h r. True)\<rparr>"

text \<open>
  One host carrying one client, on which every command succeeds and the symlink of a
  mapped image is always there: the test of the enter's poll ends the wait at once, the
  test of the exit's poll never does.
\<close>

definition cx_unmap_waits :: ctx where
  "cx_unmap_waits = \<lparr>cluster = [(''h1'', [''client.0''])], clients = [''client.0''],
     status = (\<lambda>w h args. if take 2 args = [''test'', ''!''] then 1 else 0),
     stdout = (\<lambda>w h args. []), secret_ok = (\<lambda>w h r. True)\<rparr>"

text \<open>The same host, on which \<^verbatim>\<open>mkfs\<close> fails as well.\<close>

definition cx_mkfs_fails_unmap_waits :: ctx where
  "cx_mkfs_fails_unmap_waits = \<lparr>cluster = [(''h1'', [''client.0''])], clients = [''client.0''],
     status = (\<lambda>w h args. if take 2 args = [''test'', ''!''] \<or> take 2 args = [''sudo'', ''mkfs'']
                            then 1 else 0),
     stdout = (\<lambda>w h args. []), secret_ok = (\<lambda>w h r. True)\<rparr>"

text \<open>
  The five steps of \<open>task\<close> composed by nesting: the image, module and mapping steps form
  an inner stack that is the first step of the outer one.
\<close>

definition nested_task_steps :: "ctx \<Rightarrow> props option config \<Rightarrow> step list" where
  "nested_task_steps cx config =
     [composite ''provision'' (take 3 (task_steps cx config)),
      task_steps cx config ! 3,
      task_steps cx config ! 4]"

section \<open>Properties\<close>

subsection \<open>Calls made by the lifecycle stack\<close>

lemma calls_append: "calls (w @ v) = calls w @ calls v"
  by (simp add: calls_def)

lemma enter_all_calls:
  assumes "\<forall>s\<in>set ss. bracketed s (E s)"
      and "enter_all ss entered w = (entered', Returned w')"
  shows "entered' = rev ss @ entered \<and> calls w' = calls w @ marks E ss"
  using assms
proof (induction ss arbitrary: entered w)
  case Nil
  then show ?case by (simp add: marks_def)
next
  case (Cons s ss)
  from Cons.prems(2) obtain w1 where
    e: "step_enter s (w @ [Enter (step_label s)]) = Returned w1" and
    r: "enter_all ss (s # entered) w1 = (entered', Returned w')"
    by (auto split: outcome.splits)
  from Cons.prems(1) have b: "bracketed s (E s)" by simp
  from b e have c1: "calls w1 = calls w @ Enter (step_label s) # E s"
    by (simp add: bracketed_def calls_append calls_def)
  from Cons.IH [OF _ r] Cons.prems(1)
  have "entered' = rev ss @ s # entered \<and> calls w' = calls w1 @ marks E ss" by simp
  with c1 show ?case by (simp add: marks_def)
qed

lemma unwind_calls:
  assumes "\<forall>s\<in>set st. bracketed s (E s)"
      and "unwind st errs w = Some (errs', w')"
  shows "calls w' = calls w @ concat (map (\<lambda>s. rev (map mirror (Enter (step_label s) # E s))) st)"
  using assms
proof (induction st arbitrary: errs w)
  case Nil
  then show ?case by simp
next
  case (Cons s st)
  from Cons.prems(1) have b: "bracketed s (E s)" by simp
  from Cons.prems(2) obtain w1 errs1 where
    x: "ends_in (step_exit s w) w1" and
    r: "unwind st errs1 (w1 @ [Exit (step_label s)]) = Some (errs', w')"
    by (auto simp: ends_in_def split: outcome.splits)
  from b x have c1: "calls w1 = calls w @ rev (map mirror (E s))"
    by (simp add: bracketed_def)
  from Cons.IH [OF _ r] Cons.prems(1)
  have "calls w' = calls (w1 @ [Exit (step_label s)]) @
      concat (map (\<lambda>s. rev (map mirror (Enter (step_label s) # E s))) st)" by simp
  with c1 show ?case by (simp add: calls_append calls_def)
qed

lemma unwind_rev_calls:
  assumes "\<forall>s\<in>set ss. bracketed s (E s)"
      and "unwind (rev ss) errs w = Some (errs', w')"
  shows "calls w' = calls w @ rev (map mirror (marks E ss))"
proof -
  have "concat (map (\<lambda>s. rev (map mirror (Enter (step_label s) # E s))) (rev ss))
        = rev (map mirror (marks E ss))"
    by (induction ss) (simp_all add: marks_def)
  with unwind_calls [of "rev ss" E errs w errs' w'] assms show ?thesis by simp
qed

lemma while_loop_calls_aux:
  assumes "while_loop st h t b prev w = Some y"
  shows "calls (snd y) = calls w"
proof (rule while_loop.raw_induct [where P = "\<lambda>st h t b prev w y. calls (snd y) = calls w", OF _ assms])
  fix wl :: "(world \<Rightarrow> host \<Rightarrow> string list \<Rightarrow> nat) \<Rightarrow> host \<Rightarrow> string list \<Rightarrow> string list \<Rightarrow>
       nat \<Rightarrow> world \<Rightarrow> (nat \<times> world) option"
  fix st h t b prev w y
  assume IH: "\<And>st h t b prev w y. wl st h t b prev w = Some y \<Longrightarrow> calls (snd y) = calls w"
    and eq: "(if st w h t = 0
      then wl st h t b (st (w @ [Exec h t]) h b) (w @ [Exec h t, Exec h b])
      else Some (prev, w @ [Exec h t])) = Some y"
  show "calls (snd y) = calls w"
  proof (cases "st w h t = 0")
    case True
    with eq have "wl st h t b (st (w @ [Exec h t]) h b) (w @ [Exec h t, Exec h b]) = Some y"
      by simp
    from IH [OF this] show ?thesis by (simp add: calls_def)
  next
    case False
    with eq show ?thesis by (auto simp: calls_def)
  qed
qed

lemma sh_eval_calls:
  "sh_eval st h c w = Some (s, w') \<Longrightarrow> calls w' = calls w"
proof (induction c arbitrary: w s w')
  case (Simple args)
  then show ?case by (auto simp: calls_def)
next
  case (Or a b)
  then show ?case by (fastforce split: option.splits if_splits)
next
  case (And a b)
  then show ?case by (fastforce split: option.splits if_splits)
next
  case (While t b)
  then show ?case using while_loop_calls_aux [of st h t b 0 w "(s, w')"] by simp
qed

lemma transparentI: "(\<And>w w'. ends_in (f w) w' \<Longrightarrow> calls w' = calls w) \<Longrightarrow> transparent f"
  by (simp add: transparent_def)

lemma transparentD: "transparent f \<Longrightarrow> ends_in (f w) w' \<Longrightarrow> calls w' = calls w"
  by (simp add: transparent_def)

lemma transparent_remote_run: "transparent (remote_run cx h c)"
  by (rule transparentI)
     (auto simp: remote_run_def ends_in_def split: option.splits if_splits dest: sh_eval_calls)

lemma transparent_remote_run_nowait: "transparent (remote_run_nowait cx h c)"
  by (rule transparentI) (auto simp: remote_run_nowait_def ends_in_def calls_def)

lemma transparent_write_secret_file: "transparent (write_secret_file cx h r p)"
  by (rule transparentI)
     (auto simp: write_secret_file_def ends_in_def calls_def split: if_splits)

lemma transparent_and_then:
  assumes "transparent f" and "transparent k"
  shows "transparent (\<lambda>w. and_then (f w) k)"
proof (rule transparentI)
  fix w w' assume e: "ends_in (and_then (f w) k) w'"
  show "calls w' = calls w"
  proof (cases "f w")
    case (Returned w1)
    with e have "ends_in (k w1) w'" by (simp add: and_then_def)
    from transparentD [OF assms(2) this] have "calls w' = calls w1" .
    moreover from Returned have "ends_in (f w) w1" by (simp add: ends_in_def)
    from transparentD [OF assms(1) this] have "calls w1 = calls w" .
    ultimately show ?thesis by simp
  next
    case (Raised err w1)
    with e have "ends_in (f w) w'" by (simp add: and_then_def ends_in_def)
    from transparentD [OF assms(1) this] show ?thesis .
  next
    case Hangs
    with e show ?thesis by (simp add: and_then_def ends_in_def)
  qed
qed

lemma transparent_for_each:
  assumes "\<And>x. transparent (f x)"
  shows "transparent (for_each f xs)"
proof (induction xs)
  case Nil
  show ?case by (rule transparentI) (simp add: ends_in_def)
next
  case (Cons x xs)
  have "transparent (\<lambda>w. and_then (f x w) (for_each f xs))"
    by (rule transparent_and_then [OF assms Cons.IH])
  then show ?case by (simp add: transparent_def)
qed

lemma transparent_with_remote:
  assumes "\<And>h. transparent (k h)"
  shows "transparent (with_remote cx r k)"
proof (rule transparentI)
  fix w w' assume e: "ends_in (with_remote cx r k w) w'"
  show "calls w' = calls w"
  proof (cases "\<exists>h. only cx r = [h]")
    case True
    then obtain h where "only cx r = [h]" by blast
    with e have "ends_in (k h w) w'" by (simp add: with_remote_def)
    from transparentD [OF assms this] show ?thesis .
  next
    case False
    then have "with_remote cx r k w = Raised ValueError w"
      by (auto simp: with_remote_def split: list.splits)
    with e show ?thesis by (simp add: ends_in_def)
  qed
qed

lemma transparent_Raised: "transparent (Raised e)"
  by (rule transparentI) (simp add: ends_in_def)

lemma transparent_Returned: "transparent Returned"
  by (rule transparentI) (simp add: ends_in_def)

lemma transparent_create_image_enter: "transparent (create_image_enter cx config)"
proof -
  have "\<And>x. transparent (create_image_one cx x)"
    unfolding create_image_one_def
    by (intro transparent_with_remote transparent_remote_run)
  from transparent_for_each [of "create_image_one cx", OF this] show ?thesis
    by (auto simp: transparent_def create_image_enter_def ends_in_def split: option.splits)
qed

lemma transparent_guard:
  assumes "\<And>xs. transparent (g xs)"
  shows "transparent (\<lambda>w. case c of None \<Rightarrow> Raised e w | Some xs \<Rightarrow> g xs w)"
    and "transparent (\<lambda>w. case c of None \<Rightarrow> Returned w | Some xs \<Rightarrow> g xs w)"
  using assms by (cases c; simp add: transparent_Raised transparent_Returned)+

lemma transparent_create_image_exit: "transparent (create_image_exit cx config)"
proof -
  have "\<And>x. transparent (delete_image_one cx x)"
    unfolding delete_image_one_def
    by (intro transparent_with_remote transparent_remote_run)
  from transparent_for_each [of "delete_image_one cx", OF this] show ?thesis
    by (auto simp: transparent_def create_image_exit_def ends_in_def split: option.splits)
qed

lemma transparent_modprobe_enter: "transparent (modprobe_enter cx config)"
proof -
  have "\<And>x. transparent (modprobe_one cx x)"
    unfolding modprobe_one_def
    by (intro transparent_with_remote transparent_remote_run)
  from transparent_for_each [of "modprobe_one cx", OF this] show ?thesis
    by (auto simp: transparent_def modprobe_enter_def ends_in_def split: option.splits)
qed

lemma transparent_modprobe_exit: "transparent (modprobe_exit cx config)"
proof -
  have "\<And>x. transparent (modprobe_unload_one cx x)"
    unfolding modprobe_unload_one_def
    by (intro transparent_with_remote transparent_remote_run)
  from transparent_for_each [of "modprobe_unload_one cx", OF this] show ?thesis
    by (auto simp: transparent_def modprobe_exit_def ends_in_def split: option.splits)
qed

lemma transparent_dev_create_enter: "transparent (dev_create_enter cx config)"
proof -
  have "\<And>x. transparent (dev_create_one cx x)"
    unfolding dev_create_one_def Let_def
    by (intro transparent_with_remote transparent_and_then transparent_remote_run
          transparent_write_secret_file)
  from transparent_for_each [of "dev_create_one cx", OF this] show ?thesis
    by (auto simp: transparent_def dev_create_enter_def ends_in_def split: option.splits)
qed

lemma transparent_dev_create_exit: "transparent (dev_create_exit cx config)"
proof -
  have "\<And>x. transparent (dev_unmap_one cx x)"
    unfolding dev_unmap_one_def Let_def
    by (intro transparent_with_remote transparent_and_then transparent_remote_run
          transparent_remote_run_nowait)
  from transparent_for_each [of "dev_unmap_one cx", OF this] show ?thesis
    by (auto simp: transparent_def dev_create_exit_def ends_in_def split: option.splits)
qed

lemma transparent_mkfs_enter: "transparent (mkfs_enter cx config)"
proof -
  have "\<And>x. transparent (mkfs_one cx x)"
    unfolding mkfs_one_def
    by (intro transparent_with_remote transparent_remote_run)
  from transparent_for_each [of "mkfs_one cx", OF this] show ?thesis
    by (auto simp: transparent_def mkfs_enter_def ends_in_def split: option.splits)
qed

lemma transparent_mkfs_exit: "transparent (mkfs_exit cx config)"
  by (rule transparentI) (simp add: mkfs_exit_def ends_in_def)

lemma transparent_strip:
  assumes "\<And>i. transparent (g i)"
  shows "transparent (\<lambda>w. case strip_client_prefix r of None \<Rightarrow> Raised e w | Some i \<Rightarrow> g i w)"
  using assms by (cases "strip_client_prefix r") (simp_all add: transparent_Raised)

lemma transparent_mount_enter: "transparent (mount_enter cx config)"
proof -
  have "\<And>x. transparent (mount_one cx x)"
    unfolding mount_one_def Let_def
    by (intro transparent_with_remote transparent_strip transparent_and_then
          transparent_remote_run)
  from transparent_for_each [of "mount_one cx", OF this] show ?thesis
    by (auto simp: transparent_def mount_enter_def ends_in_def split: option.splits)
qed

lemma transparent_mount_exit: "transparent (mount_exit cx config)"
proof -
  have "\<And>x. transparent (umount_one cx x)"
    unfolding umount_one_def Let_def
    by (intro transparent_with_remote transparent_strip transparent_and_then
          transparent_remote_run)
  from transparent_for_each [of "umount_one cx", OF this] show ?thesis
    by (auto simp: transparent_def mount_exit_def ends_in_def split: option.splits)
qed

lemma bracketed_plain:
  assumes "transparent (step_enter s)" and "transparent (step_exit s)"
  shows "bracketed s []"
  using assms by (auto simp: bracketed_def transparent_def ends_in_def)

lemma task_steps_bracketed: "\<forall>s\<in>set (task_steps cx config). bracketed s []"
  by (simp add: task_steps_def Let_def create_image_def modprobe_def dev_create_def mkfs_def
        mount_def bracketed_plain transparent_create_image_enter transparent_create_image_exit
        transparent_modprobe_enter transparent_modprobe_exit transparent_dev_create_enter
        transparent_dev_create_exit transparent_mkfs_enter transparent_mkfs_exit
        transparent_mount_enter transparent_mount_exit)

lemma composite_bracketed:
  assumes "\<forall>s\<in>set steps. bracketed s (E s)"
  shows "bracketed (composite l steps) (marks E steps)"
  unfolding bracketed_def
proof (intro conjI allI impI)
  fix w w' assume "step_enter (composite l steps) w = Returned w'"
  then obtain entered where "enter_all steps [] w = (entered, Returned w')"
    by (auto simp: composite_def stack_enter_def split: prod.splits outcome.splits option.splits)
  from enter_all_calls [OF assms this] show "calls w' = calls w @ marks E steps" by simp
next
  fix w w' assume "ends_in (step_exit (composite l steps) w) w'"
  then obtain errs where "unwind (rev steps) [] w = Some (errs, w')"
    by (auto simp: composite_def stack_exit_def ends_in_def split: option.splits if_splits)
  from unwind_rev_calls [OF assms this]
  show "calls w' = calls w @ rev (map mirror (marks E steps))" .
qed

lemma while_loop_stop:
  "st w h t \<noteq> 0 \<Longrightarrow> while_loop st h t b prev w = Some (prev, w @ [Exec h t])"
  by (subst while_loop.simps) simp

lemmas step_defs = create_image_def modprobe_def dev_create_def mkfs_def mount_def
  create_image_enter_def create_image_exit_def modprobe_enter_def modprobe_exit_def
  dev_create_enter_def dev_create_exit_def mkfs_enter_def mkfs_exit_def mount_enter_def
  mount_exit_def create_image_one_def delete_image_one_def modprobe_one_def
  modprobe_unload_one_def dev_create_one_def dev_unmap_one_def mkfs_one_def mount_one_def
  umount_one_def with_remote_def only_def remote_run_def remote_run_nowait_def
  write_secret_file_def and_then_def items_def roles_of_def

lemmas cmd_defs = create_words_def rm_words_def unload_cmd_def unload_words_def map_cmd_def
  map_words_def unmap_cmd_def unmap_words_def test_missing_def test_exists_def rm_rule_cmd_def
  mkfs_words_def echo_rule_words_def mv_rule_words_def mkdir_words_def mount_words_def
  rbd_words_def

lemma task_enters_ok: "\<exists>entered w1. enter_all (task_steps cx_ok (CList [''client.0''])) [] [] = (entered, Returned w1)"
  by (simp add: task_steps_def task_norm_config_def task_role_images_def cx_ok_def Let_def step_defs cmd_defs
      while_loop_stop strip_client_prefix_def startswith_def PREFIX_def image_or_default_def)

lemmas eval_defs = task_def task_steps_def task_norm_config_def task_role_images_def Let_def step_defs cmd_defs
      while_loop_stop strip_client_prefix_def startswith_def PREFIX_def image_or_default_def

lemma enter_all_append:
  "enter_all (xs @ ys) entered w =
     (case enter_all xs entered w of
        (en, Returned w1) \<Rightarrow> enter_all ys en w1
      | (en, r) \<Rightarrow> (en, r))"
  by (induction xs arbitrary: entered w) (auto split: outcome.splits)

lemma marks_plain: "marks (\<lambda>s. []) ss = map (\<lambda>s. Enter (step_label s)) ss"
  by (induction ss) (simp_all add: marks_def)

lemma task_steps_transparent:
  "\<forall>s\<in>set (task_steps cx config). transparent (step_enter s) \<and> transparent (step_exit s)"
  by (simp add: task_steps_def Let_def create_image_def modprobe_def dev_create_def mkfs_def
        mount_def transparent_create_image_enter transparent_create_image_exit
        transparent_modprobe_enter transparent_modprobe_exit transparent_dev_create_enter
        transparent_dev_create_exit transparent_mkfs_enter transparent_mkfs_exit
        transparent_mount_enter transparent_mount_exit)

subsection \<open>The image step with several targets\<close>

lemma for_each_append:
  "for_each f (xs @ ys) w = and_then (for_each f xs w) (for_each f ys)"
  by (induction xs arbitrary: w) (auto simp: and_then_def split: outcome.splits)

text \<open>
  Claim C3, as the code has it. The targets of the image step are created in list order.
  When the earlier targets are created and the creation for one target fails, the enter
  of the step fails with that failure in the world the failed attempt left: no later
  target is attempted and nothing is deleted. Inside a stack the run then fails with the
  same error and world, so the exit of the image step does not run either.
\<close>

theorem create_image_first_failure:
  assumes "for_each (create_image_one cx) pre (w @ [Enter ''create_image'']) = Returned w1"
      and "create_image_one cx (r, p) w1 = Raised e w2"
  shows "create_image_enter cx (CDict (pre @ (r, p) # post)) (w @ [Enter ''create_image''])
           = Raised e w2 \<and>
         run_stack (create_image cx (CDict (pre @ (r, p) # post)) # rest) body w = Raised e w2"
proof -
  have a: "create_image_enter cx (CDict (pre @ (r, p) # post)) (w @ [Enter ''create_image''])
           = Raised e w2"
    using assms by (simp add: create_image_enter_def items_def for_each_append and_then_def)
  then have "enter_all (create_image cx (CDict (pre @ (r, p) # post)) # rest) [] w = ([], Raised e w2)"
    by (simp add: create_image_def)
  then have "run_stack (create_image cx (CDict (pre @ (r, p) # post)) # rest) body w = Raised e w2"
    by (simp add: run_stack_def stack_enter_def)
  with a show ?thesis by simp
qed

theorem create_image_first_failure_witness:
  "create_image_enter cx_second_fails
      (CDict ([(''client.0'', None)] @ (''client.1'', None) # [(''client.2'', None)])) ([] @ [Enter ''create_image''])
     = Raised RemoteCommandError
         [Enter ''create_image'',
          Exec ''h1'' (create_words ''client.0'' None),
          Exec ''h1'' (create_words ''client.1'' None)] \<and>
   run_stack (create_image cx_second_fails
      (CDict ([(''client.0'', None)] @ (''client.1'', None) # [(''client.2'', None)])) # []) Returned []
     = Raised RemoteCommandError
         [Enter ''create_image'',
          Exec ''h1'' (create_words ''client.0'' None),
          Exec ''h1'' (create_words ''client.1'' None)]"
proof -
  have a: "for_each (create_image_one cx_second_fails) [(''client.0'', None)] ([] @ [Enter ''create_image''])
      = Returned [Enter ''create_image'', Exec ''h1'' (create_words ''client.0'' None)]"
    by (simp add: create_image_one_def with_remote_def only_def remote_run_def and_then_def
        cx_second_fails_def create_words_def rbd_words_def)
  have b: "create_image_one cx_second_fails (''client.1'', None)
        [Enter ''create_image'', Exec ''h1'' (create_words ''client.0'' None)]
      = Raised RemoteCommandError [Enter ''create_image'',
          Exec ''h1'' (create_words ''client.0'' None),
          Exec ''h1'' (create_words ''client.1'' None)]"
    by (simp add: create_image_one_def with_remote_def only_def remote_run_def and_then_def
        cx_second_fails_def create_words_def rbd_words_def)
  from create_image_first_failure [OF a b] show ?thesis .
qed

text \<open>
  With three targets of which the second fails, the third is never attempted and the image
  of the first is never removed.
\<close>

theorem create_image_isolation_counterexample:
  "create_image_enter cx_second_fails (CList [''client.0'', ''client.1'', ''client.2''])
       [Enter ''create_image''] =
     Raised RemoteCommandError
       [Enter ''create_image'',
        Exec ''h1'' (create_words ''client.0'' None),
        Exec ''h1'' (create_words ''client.1'' None)] \<and>
   task cx_second_fails (CList [''client.0'', ''client.1'', ''client.2'']) Returned [] =
     Raised RemoteCommandError
       [Enter ''create_image'',
        Exec ''h1'' (create_words ''client.0'' None),
        Exec ''h1'' (create_words ''client.1'' None)]"
  by (simp add: task_def task_steps_def task_norm_config_def task_role_images_def Let_def
        run_stack_def stack_enter_def create_image_def create_image_enter_def items_def
        create_image_one_def with_remote_def only_def remote_run_def and_then_def
        cx_second_fails_def create_words_def rbd_words_def)

subsection \<open>The polling waits of the mapping step\<close>

lemma while_loop_never:
  assumes "\<forall>w'. st w' h t = 0"
  shows "while_loop st h t b prev w = None"
proof (rule ccontr)
  assume "while_loop st h t b prev w \<noteq> None"
  then obtain y where y: "while_loop st h t b prev w = Some y" by blast
  have "\<not> (\<forall>w'. st w' h t = 0)"
  proof (rule while_loop.raw_induct [where P = "\<lambda>st h t b prev w y. \<not> (\<forall>w'. st w' h t = 0)", OF _ y])
    fix wl :: "(world \<Rightarrow> host \<Rightarrow> string list \<Rightarrow> nat) \<Rightarrow> host \<Rightarrow> string list \<Rightarrow> string list \<Rightarrow>
         nat \<Rightarrow> world \<Rightarrow> (nat \<times> world) option"
    fix st h t b prev w y
    assume IH: "\<And>st h t b prev w y. wl st h t b prev w = Some y \<Longrightarrow> \<not> (\<forall>w'. st w' h t = 0)"
      and eq: "(if st w h t = 0
        then wl st h t b (st (w @ [Exec h t]) h b) (w @ [Exec h t, Exec h b])
        else Some (prev, w @ [Exec h t])) = Some y"
    show "\<not> (\<forall>w'. st w' h t = 0)"
    proof (cases "st w h t = 0")
      case True
      with eq IH show ?thesis by simp
    next
      case False
      then show ?thesis by auto
    qed
  qed
  with assms show False by simp
qed

lemma for_each_Raised:
  "for_each f xs w = Raised e w' \<Longrightarrow> \<exists>x w0. f x w0 = Raised e w'"
proof (induction xs arbitrary: w)
  case Nil
  then show ?case by simp
next
  case (Cons x xs)
  then show ?case by (cases "f x w") (auto simp: and_then_def)
qed

lemma remote_run_Raised: "remote_run cx h c w = Raised e w' \<Longrightarrow> e = RemoteCommandError"
  by (auto simp: remote_run_def split: option.splits if_splits)

lemma with_remote_Raised:
  assumes "with_remote cx r k w = Raised e w'"
  shows "e = ValueError \<or> (\<exists>h. k h w = Raised e w')"
  using assms by (auto simp: with_remote_def split: list.splits)

lemma dev_unmap_one_Raised:
  "dev_unmap_one cx ri w = Raised e w' \<Longrightarrow> e = ValueError \<or> e = RemoteCommandError"
  by (auto simp: dev_unmap_one_def Let_def and_then_def remote_run_nowait_def
      dest!: with_remote_Raised split: outcome.splits dest: remote_run_Raised)

lemma dev_create_one_Raised:
  "dev_create_one cx ri w = Raised e w' \<Longrightarrow> e = ValueError \<or> e = RemoteCommandError"
  by (auto simp: dev_create_one_def Let_def and_then_def write_secret_file_def
      dest!: with_remote_Raised split: outcome.splits if_splits dest: remote_run_Raised)

text \<open>
  Claim C4, as the code has it. The polling loops of the mapping step have no bound. On
  exit, once the unmap command has succeeded, the step does not return as long as the test
  finds the symlink: if the symlink never disappears the exit never returns. On enter
  likewise, once the image is mapped, if the symlink never appears. In no case does
  either action raise \<open>DeviceTimeoutError\<close>.
\<close>

theorem mapping_waits_unbounded:
  assumes h: "only cx r = [h]"
  shows "(status cx w h (unmap_words (image_or_default r img)) = 0 \<and>
          (\<forall>w'. status cx w' h (test_exists (image_or_default r img)) = 0)
            \<longrightarrow> dev_create_exit cx (CDict ((r, img) # rest)) w = Hangs) \<and>
         (status cx w h echo_rule_words = 0 \<and>
          status cx (w @ [Exec h echo_rule_words]) h mv_rule_words = 0 \<and>
          secret_ok cx (w @ [Exec h echo_rule_words, Exec h mv_rule_words]) h r \<and>
          status cx (w @ [Exec h echo_rule_words, Exec h mv_rule_words,
                          Write_secret h r (secret_path r)]) h
            (map_words r (secret_path r) (image_or_default r img)) = 0 \<and>
          (\<forall>w'. status cx w' h (test_missing (image_or_default r img)) = 0)
            \<longrightarrow> dev_create_enter cx (CDict ((r, img) # rest)) w = Hangs) \<and>
         (\<forall>config w0 w'. dev_create_exit cx config w0 \<noteq> Raised DeviceTimeoutError w' \<and>
                        dev_create_enter cx config w0 \<noteq> Raised DeviceTimeoutError w')"
proof (intro conjI impI allI)
  assume a: "status cx w h (unmap_words (image_or_default r img)) = 0 \<and>
          (\<forall>w'. status cx w' h (test_exists (image_or_default r img)) = 0)"
  have nt: "unmap_words (image_or_default r img) \<noteq> [''true'']"
    by (simp add: unmap_words_def)
  from a have "while_loop (status cx) h (test_exists (image_or_default r img)) [''sleep'', ''1''] 0
       (w @ [Exec h (unmap_words (image_or_default r img))]) = None"
    by (intro while_loop_never) simp
  with a nt h show "dev_create_exit cx (CDict ((r, img) # rest)) w = Hangs"
    by (simp add: dev_create_exit_def items_def dev_unmap_one_def Let_def with_remote_def
          remote_run_def unmap_cmd_def and_then_def)
next
  assume a: "status cx w h echo_rule_words = 0 \<and>
          status cx (w @ [Exec h echo_rule_words]) h mv_rule_words = 0 \<and>
          secret_ok cx (w @ [Exec h echo_rule_words, Exec h mv_rule_words]) h r \<and>
          status cx (w @ [Exec h echo_rule_words, Exec h mv_rule_words,
                          Write_secret h r (secret_path r)]) h
            (map_words r (secret_path r) (image_or_default r img)) = 0 \<and>
          (\<forall>w'. status cx w' h (test_missing (image_or_default r img)) = 0)"
  have nt: "map_words r (secret_path r) (image_or_default r img) \<noteq> [''true'']"
    "echo_rule_words \<noteq> [''true'']" "mv_rule_words \<noteq> [''true'']"
    by (simp_all add: map_words_def echo_rule_words_def mv_rule_words_def)
  from a have "\<And>w0. while_loop (status cx) h (test_missing (image_or_default r img)) [''sleep'', ''1''] 0
       w0 = None"
    by (intro while_loop_never) simp
  with a nt h show "dev_create_enter cx (CDict ((r, img) # rest)) w = Hangs"
    by (simp add: dev_create_enter_def items_def dev_create_one_def Let_def with_remote_def
          remote_run_def map_cmd_def and_then_def write_secret_file_def)
next
  fix config w0 w'
  show "dev_create_exit cx config w0 \<noteq> Raised DeviceTimeoutError w'"
    by (auto simp: dev_create_exit_def split: option.splits
        dest!: for_each_Raised dev_unmap_one_Raised)
  show "dev_create_enter cx config w0 \<noteq> Raised DeviceTimeoutError w'"
    by (auto simp: dev_create_enter_def split: option.splits
        dest!: for_each_Raised dev_create_one_Raised)
qed

theorem mapping_waits_unbounded_witness:
  "dev_create_exit cx_symlink_stays (CDict [(''client.0'', PStr ''foo'')]) [] = Hangs \<and>
   dev_create_enter cx_symlink_stays (CDict [(''client.0'', PStr ''foo'')]) [] = Hangs \<and>
   (\<forall>config w0 w'.
      dev_create_exit cx_symlink_stays config w0 \<noteq> Raised DeviceTimeoutError w' \<and>
      dev_create_enter cx_symlink_stays config w0 \<noteq> Raised DeviceTimeoutError w')"
proof -
  have "only cx_symlink_stays ''client.0'' = [''h1'']"
    by (simp add: only_def cx_symlink_stays_def)
  from mapping_waits_unbounded [OF this, of "[]" "PStr ''foo''" "[]"]
  show ?thesis by (simp add: cx_symlink_stays_def)
qed

text \<open>Where the symlink never changes, neither action fails: it never returns.\<close>

theorem mapping_wait_timeout_counterexample:
  "dev_create_exit cx_symlink_stays (CList [''client.0'']) [] = Hangs \<and>
   dev_create_enter cx_symlink_stays (CList [''client.0'']) [] = Hangs"
proof -
  have "\<And>t b prev w. while_loop (status cx_symlink_stays) ''h1'' t b prev w = None"
    by (rule while_loop_never) (simp add: cx_symlink_stays_def)
  then show ?thesis
    by (simp add: dev_create_exit_def dev_create_enter_def items_def dev_unmap_one_def
        dev_create_one_def Let_def with_remote_def only_def remote_run_def unmap_cmd_def
        map_cmd_def and_then_def write_secret_file_def cx_symlink_stays_def)
qed

subsection \<open>Defaults\<close>

lemma py_str_10240: "py_str (PInt 10240) = ''10240''"
  by (simp add: py_str_def digits.simps)

lemma py_str_1: "py_str (PInt 1) = ''1''"
  by (simp add: py_str_def digits.simps)

text \<open>
  Claim C6. Defaults apply field by field. A target whose properties omit the image name
  gets \<open>testimage.\<close> followed by the target, and every step resolves that same name:
  image creation and \<open>mkfs\<close> from the properties, device mapping and mount from the
  \<open>None\<close> that \<open>task\<close> passes on for the target. An omitted size is 10240, an omitted
  format is 1, each whatever the other fields are.
\<close>

theorem defaults_per_field:
  "(or_empty p ''image_name'' = None \<longrightarrow>
      create_image_name r p = PStr (''testimage.'' @ r) \<and>
      mkfs_image r p = PStr (''testimage.'' @ r) \<and>
      task_role_images (CDict [(r, p)]) = CDict [(r, PNone)] \<and>
      image_or_default r PNone = PStr (''testimage.'' @ r) \<and>
      map_words r (secret_path r) (image_or_default r PNone) =
        [''sudo''] @ rbd_words @ [''--user'', rsplit_last r, ''--secret'', secret_path r,
          ''-p'', ''rbd'', ''map'', ''testimage.'' @ r] \<and>
      mount_words (image_or_default r PNone) i =
        [''sudo'', ''mount'', ''/dev/rbd/rbd/testimage.'' @ r, mnt_path i]) \<and>
   (or_empty p ''image_size'' = None \<longrightarrow> create_image_size p = PInt 10240) \<and>
   (or_empty p ''image_format'' = None \<longrightarrow> create_image_fmt p = PInt 1) \<and>
   (or_empty p ''image_name'' = None \<and> or_empty p ''image_size'' = None \<and>
    or_empty p ''image_format'' = None \<longrightarrow>
      create_words r p =
        rbd_words @ [''-p'', ''rbd'', ''create'', ''--format'', ''1'', ''--size'', ''10240'',
                     ''testimage.'' @ r])"
  by (simp add: create_image_name_def mkfs_image_def task_role_images_def image_or_default_def
      create_image_size_def create_image_fmt_def create_words_def dict_get_def dict_get_none_def
      default_image_name_def py_str_10240 py_str_1 map_words_def mount_words_def dev_path_def)
    (simp add: py_str_def)

theorem defaults_per_field_witness:
  "create_image_name ''client.1'' (Some [''image_size'' \<mapsto> PInt 20480]) = PStr ''testimage.client.1'' \<and>
   mkfs_image ''client.1'' (Some [''image_size'' \<mapsto> PInt 20480]) = PStr ''testimage.client.1'' \<and>
   task_role_images (CDict [(''client.1'', Some [''image_size'' \<mapsto> PInt 20480])])
     = CDict [(''client.1'', PNone)] \<and>
   image_or_default ''client.1'' PNone = PStr ''testimage.client.1'' \<and>
   create_image_fmt (Some [''image_size'' \<mapsto> PInt 20480]) = PInt 1 \<and>
   create_image_size (Some [''image_size'' \<mapsto> PInt 20480]) = PInt 20480 \<and>
   create_image_size None = PInt 10240 \<and>
   create_words ''client.1'' None =
     rbd_words @ [''-p'', ''rbd'', ''create'', ''--format'', ''1'', ''--size'', ''10240'',
                  ''testimage.client.1'']"
  using defaults_per_field [of "Some [''image_size'' \<mapsto> PInt 20480]" "''client.1''"]
    defaults_per_field [of None "''client.1''"]
  by (simp add: or_empty_def create_image_size_def dict_get_def)

subsection \<open>Failures on exit\<close>

lemma modprobe_unload_one_Returned:
  assumes "only cx r = [h]"
  shows "modprobe_unload_one cx r w =
           Returned (if status cx w h unload_words = 0 then w @ [Exec h unload_words]
                     else w @ [Exec h unload_words, Exec h [''true'']])"
  using assms
  by (simp add: modprobe_unload_one_def with_remote_def remote_run_def unload_cmd_def
      unload_words_def)

lemma for_each_modprobe_unload:
  assumes "\<forall>r\<in>set rs. \<exists>h. only cx r = [h]"
  shows "\<exists>w'. for_each (modprobe_unload_one cx) rs w = Returned w'"
  using assms
proof (induction rs arbitrary: w)
  case Nil
  then show ?case by simp
next
  case (Cons r rs)
  then obtain h where "only cx r = [h]" by auto
  from modprobe_unload_one_Returned [OF this]
  obtain w1 where "modprobe_unload_one cx r w = Returned w1" by blast
  with Cons show ?case by (simp add: and_then_def)
qed

text \<open>
  Claim C7. Where every role resolves to one host, the exit of the kernel-module step
  returns whatever the status of the unload command is. The exit of the mapping step
  raises when the unmap command fails; once unmap and its wait have succeeded, the
  removal of the udev rule file is started without waiting, and the target's exit returns
  whatever becomes of it.
\<close>

theorem unload_errors_swallowed:
  "(roles_of config = Some rs \<and> (\<forall>r\<in>set rs. \<exists>h. only cx r = [h])
      \<longrightarrow> (\<exists>w'. modprobe_exit cx config w = Returned w')) \<and>
   (only cx r = [h] \<and> status cx w h (unmap_words (image_or_default r img)) \<noteq> 0
      \<longrightarrow> dev_create_exit cx (CDict ((r, img) # rest)) w =
             Raised RemoteCommandError (w @ [Exec h (unmap_words (image_or_default r img))])) \<and>
   (only cx r = [h] \<and> remote_run cx h (unmap_cmd (image_or_default r img)) w = Returned w1
      \<longrightarrow> dev_unmap_one cx (r, img) w = Returned (w1 @ [Spawn h rm_rule_cmd]))"
proof (intro conjI impI)
  assume "roles_of config = Some rs \<and> (\<forall>r\<in>set rs. \<exists>h. only cx r = [h])"
  then show "\<exists>w'. modprobe_exit cx config w = Returned w'"
    using for_each_modprobe_unload [of rs cx w] by (simp add: modprobe_exit_def)
next
  assume a: "only cx r = [h] \<and> status cx w h (unmap_words (image_or_default r img)) \<noteq> 0"
  have "unmap_words (image_or_default r img) \<noteq> [''true'']"
    by (simp add: unmap_words_def)
  with a show "dev_create_exit cx (CDict ((r, img) # rest)) w =
             Raised RemoteCommandError (w @ [Exec h (unmap_words (image_or_default r img))])"
    by (simp add: dev_create_exit_def items_def dev_unmap_one_def Let_def with_remote_def
        remote_run_def unmap_cmd_def and_then_def)
next
  assume "only cx r = [h] \<and> remote_run cx h (unmap_cmd (image_or_default r img)) w = Returned w1"
  then show "dev_unmap_one cx (r, img) w = Returned (w1 @ [Spawn h rm_rule_cmd])"
    by (simp add: dev_unmap_one_def Let_def with_remote_def and_then_def remote_run_nowait_def)
qed

theorem unload_errors_swallowed_witness:
  "(\<exists>w'. modprobe_exit cx_all_fail (CList [''client.0''] :: pyval config) [] = Returned w') \<and>
   dev_create_exit cx_all_fail (CDict ((''client.0'', PNone) # [])) [] =
     Raised RemoteCommandError
       ([] @ [Exec ''h1'' (unmap_words (image_or_default ''client.0'' PNone))]) \<and>
   dev_unmap_one cx_first_only (''client.0'', PNone) [] =
     Returned ([Exec ''h1'' (unmap_words (image_or_default ''client.0'' PNone)),
                Exec ''h1'' (test_exists (image_or_default ''client.0'' PNone))]
               @ [Spawn ''h1'' rm_rule_cmd])"
proof -
  have o: "only cx_all_fail ''client.0'' = [''h1'']" "only cx_first_only ''client.0'' = [''h1'']"
    by (simp_all add: only_def cx_all_fail_def cx_first_only_def)
  have r: "remote_run cx_first_only ''h1'' (unmap_cmd (image_or_default ''client.0'' PNone)) []
      = Returned [Exec ''h1'' (unmap_words (image_or_default ''client.0'' PNone)),
                  Exec ''h1'' (test_exists (image_or_default ''client.0'' PNone))]"
    by (simp add: remote_run_def unmap_cmd_def cx_first_only_def while_loop_stop unmap_words_def)
  have s: "status cx_all_fail [] ''h1'' (unmap_words (image_or_default ''client.0'' PNone)) \<noteq> 0"
    by (simp add: cx_all_fail_def)
  from unload_errors_swallowed [where config = "CList [''client.0''] :: pyval config" and rs = "[''client.0'']"
      and cx = cx_all_fail and r = "''client.0''" and h = "''h1''" and w = "[]" and img = PNone
      and rest = "[]" and ?w1.0 = "[]"] o s
  have a: "(\<exists>w'. modprobe_exit cx_all_fail (CList [''client.0''] :: pyval config) [] = Returned w') \<and>
   dev_create_exit cx_all_fail (CDict ((''client.0'', PNone) # [])) [] =
     Raised RemoteCommandError
       ([] @ [Exec ''h1'' (unmap_words (image_or_default ''client.0'' PNone))])"
    by (simp add: roles_of_def)
  from unload_errors_swallowed [where config = "CList [''client.0''] :: pyval config" and rs = "[''client.0'']"
      and cx = cx_first_only and r = "''client.0''" and h = "''h1''" and w = "[]" and img = PNone
      and rest = "[]" and ?w1.0 = "[Exec ''h1'' (unmap_words (image_or_default ''client.0'' PNone)),
                  Exec ''h1'' (test_exists (image_or_default ''client.0'' PNone))]"] o r
  have "dev_unmap_one cx_first_only (''client.0'', PNone) [] =
     Returned ([Exec ''h1'' (unmap_words (image_or_default ''client.0'' PNone)),
                Exec ''h1'' (test_exists (image_or_default ''client.0'' PNone))]
               @ [Spawn ''h1'' rm_rule_cmd])"
    by simp
  with a show ?thesis by simp
qed

subsection \<open>The mount step\<close>

lemma strip_client_prefix_eq:
  "strip_client_prefix r = (if startswith r ''client.'' then Some (drop 7 r) else None)"
  by (simp add: strip_client_prefix_def PREFIX_def eval_nat_numeral)

text \<open>
  Claim C9. For a target that resolves to one host and does not start with \<open>client.\<close>,
  the enter of the mount step fails on the assertion (which has no message) in the world
  the earlier targets left: no command is issued for that target. For a target that starts
  with \<open>client.\<close>, the mount point is \<open>/tmp/cephtest/mnt.\<close> followed by the target without
  its first seven characters.
\<close>

theorem mount_requires_client_prefix:
  "(only cx r = [h] \<and> \<not> startswith r ''client.'' \<and>
    for_each (mount_one cx) pre w = Returned w1
      \<longrightarrow> mount_enter cx (CDict (pre @ (r, img) # post)) w = Raised (AssertionError []) w1) \<and>
   (only cx r = [h] \<and> startswith r ''client.''
      \<longrightarrow> mount_one cx (r, img) w =
            and_then (remote_run cx h (Simple [''mkdir'', ''--'', ''/tmp/cephtest/mnt.'' @ drop 7 r]) w)
              (remote_run cx h
                 (Simple [''sudo'', ''mount'', dev_path (image_or_default r img),
                          ''/tmp/cephtest/mnt.'' @ drop 7 r])))"
proof (intro conjI impI)
  assume a: "only cx r = [h] \<and> \<not> startswith r ''client.'' \<and>
    for_each (mount_one cx) pre w = Returned w1"
  then have "mount_one cx (r, img) w1 = Raised (AssertionError []) w1"
    by (simp add: mount_one_def Let_def with_remote_def strip_client_prefix_eq)
  with a show "mount_enter cx (CDict (pre @ (r, img) # post)) w = Raised (AssertionError []) w1"
    by (simp add: mount_enter_def items_def for_each_append and_then_def)
next
  assume "only cx r = [h] \<and> startswith r ''client.''"
  then show "mount_one cx (r, img) w =
            and_then (remote_run cx h (Simple [''mkdir'', ''--'', ''/tmp/cephtest/mnt.'' @ drop 7 r]) w)
              (remote_run cx h
                 (Simple [''sudo'', ''mount'', dev_path (image_or_default r img),
                          ''/tmp/cephtest/mnt.'' @ drop 7 r]))"
    by (simp add: mount_one_def Let_def with_remote_def strip_client_prefix_eq mnt_path_def
        mkdir_words_def mount_words_def)
qed

theorem mount_requires_client_prefix_witness:
  "mount_enter cx_all_fail (CDict ([] @ (''osd.0'', PNone) # [(''client.0'', PNone)])) []
     = Raised (AssertionError []) [] \<and>
   mount_one cx_all_fail (''client.0'', PNone) [] =
     Raised RemoteCommandError [Exec ''h1'' [''mkdir'', ''--'', ''/tmp/cephtest/mnt.0'']]"
proof -
  have o: "only cx_all_fail ''osd.0'' = [''h1'']" "only cx_all_fail ''client.0'' = [''h1'']"
    by (simp_all add: only_def cx_all_fail_def)
  have n: "\<not> startswith ''osd.0'' ''client.''" "startswith ''client.0'' ''client.''"
    by (simp_all add: startswith_def)
  from mount_requires_client_prefix [where cx = cx_all_fail and r = "''osd.0''" and h = "''h1''"
      and pre = "[]" and w = "[]" and ?w1.0 = "[]" and img = PNone and post = "[(''client.0'', PNone)]"]
    o n
  have a: "mount_enter cx_all_fail (CDict ([] @ (''osd.0'', PNone) # [(''client.0'', PNone)])) []
     = Raised (AssertionError []) []" by simp
  from mount_requires_client_prefix [where cx = cx_all_fail and r = "''client.0''" and h = "''h1''"
      and pre = "[]" and w = "[]" and ?w1.0 = "[]" and img = PNone and post = "[]"]
    o n
  have "mount_one cx_all_fail (''client.0'', PNone) [] =
     Raised RemoteCommandError [Exec ''h1'' [''mkdir'', ''--'', ''/tmp/cephtest/mnt.0'']]"
    by (simp add: and_then_def remote_run_def cx_all_fail_def)
  with a show ?thesis by simp
qed

subsection \<open>One xfstests run per host\<close>

lemma claim_hosts_Inl:
  "claim_hosts r cl running = Inl e \<Longrightarrow>
     e = AssertionError ''task xfstests allows only one instance at a time per host''"
  by (induction cl arbitrary: running) (auto split: if_splits)

lemma claim_hosts_busy:
  assumes "(h, roles) \<in> set cl" and "r \<in> set roles" and "h \<in> set running"
  shows "\<exists>e. claim_hosts r cl running = Inl e"
  using assms
proof (induction cl arbitrary: running)
  case Nil
  then show ?case by simp
next
  case (Cons hr cl)
  show ?case
  proof (cases "hr = (h, roles)")
    case True
    with Cons.prems show ?thesis by simp
  next
    case False
    with Cons.prems have m: "(h, roles) \<in> set cl" by simp
    from Cons.IH [OF m Cons.prems(2)] Cons.prems(3)
    have "\<exists>e. claim_hosts r cl running = Inl e"
      and "\<exists>e. claim_hosts r cl (fst hr # running) = Inl e" by simp_all
    then show ?thesis by simp
  qed
qed

lemma claim_hosts_Inr:
  "claim_hosts r cl running = Inr running' \<Longrightarrow>
     set running \<subseteq> set running' \<and>
     (\<forall>h roles. (h, roles) \<in> set cl \<and> r \<in> set roles \<longrightarrow> h \<in> set running')"
proof (induction cl arbitrary: running)
  case Nil
  then show ?case by simp
next
  case (Cons hr cl)
  show ?case
  proof (cases "r \<in> set (snd hr)")
    case True
    with Cons.prems have nb: "fst hr \<notin> set running"
      and c: "claim_hosts r cl (fst hr # running) = Inr running'"
      by (auto split: if_splits)
    from Cons.IH [OF c] show ?thesis by auto
  next
    case False
    with Cons.prems have c: "claim_hosts r cl running = Inr running'" by simp
    from Cons.IH [OF c] False show ?thesis by auto
  qed
qed

lemma xfstests_check_collision:
  assumes "(h, roles) \<in> set (cluster cx)"
      and "fst x \<in> set roles"
      and "h \<in> set running \<or> (\<exists>y\<in>set pre. fst y \<in> set roles)"
  shows "\<exists>m. xfstests_check cx (pre @ x # post) running = Some (AssertionError m) \<and>
             (m = ''task xfstests allows only one instance at a time per host'' \<or>
              m = ''task xfstests can only run on client nodes'') \<and>
             ((\<forall>y\<in>set (pre @ [x]). startswith (fst y) ''client.'') \<longrightarrow>
                m = ''task xfstests allows only one instance at a time per host'')"
  using assms(3)
proof (induction pre arbitrary: running)
  case Nil
  then have b: "h \<in> set running" by simp
  from claim_hosts_busy [OF assms(1,2) b] obtain e where
    e: "claim_hosts (fst x) (cluster cx) running = Inl e" by blast
  from claim_hosts_Inl [OF e] e show ?case by simp
next
  case (Cons y pre)
  show ?case
  proof (cases "startswith (fst y) ''client.''")
    case False
    then show ?thesis by simp
  next
    case True
    show ?thesis
    proof (cases "claim_hosts (fst y) (cluster cx) running")
      case (Inl e)
      from claim_hosts_Inl [OF Inl] Inl True show ?thesis by simp
    next
      case (Inr running')
      from claim_hosts_Inr [OF Inr] assms(1) Cons.prems
      have "h \<in> set running' \<or> (\<exists>y\<in>set pre. fst y \<in> set roles)" by auto
      from Cons.IH [OF this] Inr True show ?thesis by simp
    qed
  qed
qed

text \<open>
  Claim C5, as the code has it. When two runs of an \<open>xfstests\<close> configuration name roles
  carried by the same host, entering \<open>xfstests\<close> fails on an assertion and leaves the
  world as it was: no remote command is executed and no provisioning step is entered. The
  assertion is the one on the host being in use when every run up to the second of the two
  is a client role; otherwise it may be the one on client roles, which is checked first
  for each run.
\<close>

theorem xfstests_conflict_before_commands:
  assumes "xfstests_runs cx config = pre @ x # mid @ y # post"
      and "(h, roles) \<in> set (cluster cx)"
      and "fst x \<in> set roles"
      and "fst y \<in> set roles"
  shows "\<exists>m. xfstests_enter cx config w = Raised (AssertionError m) w \<and>
             (m = ''task xfstests allows only one instance at a time per host'' \<or>
              m = ''task xfstests can only run on client nodes'') \<and>
             ((\<forall>z\<in>set (pre @ x # mid @ [y]). startswith (fst z) ''client.'') \<longrightarrow>
                m = ''task xfstests allows only one instance at a time per host'')"
proof -
  have "\<exists>z\<in>set (pre @ x # mid). fst z \<in> set roles" using assms(3) by auto
  then have c: "h \<in> set [] \<or> (\<exists>z\<in>set (pre @ x # mid). fst z \<in> set roles)" by simp
  from xfstests_check_collision [OF assms(2) assms(4) c, of post]
  obtain m where
    m: "xfstests_check cx ((pre @ x # mid) @ y # post) [] = Some (AssertionError m)" and
    d: "m = ''task xfstests allows only one instance at a time per host'' \<or>
        m = ''task xfstests can only run on client nodes''" and
    k: "(\<forall>z\<in>set ((pre @ x # mid) @ [y]). startswith (fst z) ''client.'') \<longrightarrow>
          m = ''task xfstests allows only one instance at a time per host''"
    by blast
  have e: "xfstests_enter cx config w = Raised (AssertionError m) w"
    using m assms(1) by (simp add: xfstests_enter_def Let_def)
  with d k show ?thesis by auto
qed

theorem xfstests_conflict_before_commands_witness:
  "xfstests_enter cx_shared_host CNone [] =
     Raised (AssertionError ''task xfstests allows only one instance at a time per host'') []"
proof -
  have r: "xfstests_runs cx_shared_host CNone = [] @ (''client.0'', None) # [] @ (''client.1'', None) # []"
    by (simp add: xfstests_runs_def replace_all_with_clients_def cx_shared_host_def)
  have c: "(''h1'', [''osd.0'', ''client.0'', ''client.1'']) \<in> set (cluster cx_shared_host)"
    by (simp add: cx_shared_host_def)
  from xfstests_conflict_before_commands [OF r c, of "[]"]
  show ?thesis by (auto simp: startswith_def)
qed

text \<open>
  Two clients on one host, listed after a role that is not a client: the failure is the
  assertion on client roles, not the one on the host.
\<close>

theorem xfstests_conflict_counterexample:
  "xfstests_enter cx_shared_host (CList [''osd.0'', ''client.0'', ''client.1'']) [] =
     Raised (AssertionError ''task xfstests can only run on client nodes'') []"
  by (simp add: xfstests_enter_def xfstests_runs_def Let_def startswith_def)

subsection \<open>Actions that always end\<close>

lemma always_endsI: "(\<And>w. f w \<noteq> Hangs) \<Longrightarrow> always_ends f"
  by (simp add: always_ends_def)

lemma always_endsD: "always_ends f \<Longrightarrow> f w \<noteq> Hangs"
  by (simp add: always_ends_def)

lemma always_ends_and_then:
  assumes "always_ends f" and "always_ends k"
  shows "always_ends (\<lambda>w. and_then (f w) k)"
proof (rule always_endsI)
  fix w
  show "and_then (f w) k \<noteq> Hangs"
    using always_endsD [OF assms(1), of w] always_endsD [OF assms(2)]
    by (cases "f w") (simp_all add: and_then_def)
qed

lemma always_ends_for_each:
  assumes "\<And>x. always_ends (f x)"
  shows "always_ends (for_each f xs)"
proof (induction xs)
  case Nil
  show ?case by (simp add: always_ends_def)
next
  case (Cons x xs)
  have "always_ends (\<lambda>w. and_then (f x w) (for_each f xs))"
    by (rule always_ends_and_then [OF assms Cons.IH])
  then show ?case by (simp add: always_ends_def)
qed

lemma always_ends_with_remote:
  assumes "\<And>h. always_ends (k h)"
  shows "always_ends (with_remote cx r k)"
proof (rule always_endsI)
  fix w
  show "with_remote cx r k w \<noteq> Hangs"
    using always_endsD [OF assms]
    by (auto simp: with_remote_def split: list.splits)
qed

lemma always_ends_remote_run_Simple: "always_ends (remote_run cx h (Simple args))"
  by (simp add: always_ends_def remote_run_def)

lemma always_ends_remote_run_unload: "always_ends (remote_run cx h unload_cmd)"
  by (simp add: always_ends_def remote_run_def unload_cmd_def)

lemma always_ends_remote_run_nowait: "always_ends (remote_run_nowait cx h c)"
  by (simp add: always_ends_def remote_run_nowait_def)

lemma always_ends_strip:
  assumes "\<And>i. always_ends (g i)"
  shows "always_ends (\<lambda>w. case strip_client_prefix r of None \<Rightarrow> Raised e w | Some i \<Rightarrow> g i w)"
  using assms by (cases "strip_client_prefix r") (simp_all add: always_ends_def)

lemma always_ends_create_image_exit: "always_ends (create_image_exit cx config)"
proof -
  have "\<And>x. always_ends (delete_image_one cx x)"
    unfolding delete_image_one_def
    by (intro always_ends_with_remote always_ends_remote_run_Simple)
  from always_ends_for_each [of "delete_image_one cx", OF this] show ?thesis
    by (auto simp: always_ends_def create_image_exit_def split: option.splits)
qed

lemma always_ends_modprobe_exit: "always_ends (modprobe_exit cx config)"
proof -
  have "\<And>x. always_ends (modprobe_unload_one cx x)"
    unfolding modprobe_unload_one_def
    by (intro always_ends_with_remote always_ends_remote_run_unload)
  from always_ends_for_each [of "modprobe_unload_one cx", OF this] show ?thesis
    by (auto simp: always_ends_def modprobe_exit_def split: option.splits)
qed

lemma always_ends_mkfs_exit: "always_ends (mkfs_exit cx config)"
  by (simp add: always_ends_def mkfs_exit_def)

lemma always_ends_mount_exit: "always_ends (mount_exit cx config)"
proof -
  have "\<And>x. always_ends (umount_one cx x)"
    unfolding umount_one_def Let_def
    by (intro always_ends_with_remote always_ends_strip always_ends_and_then
          always_ends_remote_run_Simple)
  from always_ends_for_each [of "umount_one cx", OF this] show ?thesis
    by (auto simp: always_ends_def mount_exit_def split: option.splits)
qed

lemma always_ends_dev_create_exit:
  assumes "\<And>w h p. status cx w h (test_exists p) \<noteq> 0"
  shows "always_ends (dev_create_exit cx config)"
proof -
  have u: "\<And>h p. always_ends (remote_run cx h (unmap_cmd p))"
    using assms
    by (auto simp: always_ends_def remote_run_def unmap_cmd_def while_loop_stop
        split: option.splits)
  have "\<And>x. always_ends (dev_unmap_one cx x)"
    unfolding dev_unmap_one_def Let_def
    by (intro always_ends_with_remote always_ends_and_then u always_ends_remote_run_nowait)
  from always_ends_for_each [of "dev_unmap_one cx", OF this] show ?thesis
    by (auto simp: always_ends_def dev_create_exit_def split: option.splits)
qed

lemma task_exits_end:
  assumes "always_ends (dev_create_exit cx (task_role_images (task_norm_config cx config)))"
  shows "\<forall>s\<in>set (task_steps cx config). always_ends (step_exit s)"
  using assms
  by (simp add: task_steps_def Let_def create_image_def modprobe_def dev_create_def mkfs_def
        mount_def always_ends_create_image_exit always_ends_modprobe_exit always_ends_mkfs_exit
        always_ends_mount_exit)

lemma unwind_ends:
  assumes "\<forall>s\<in>set st. always_ends (step_exit s)"
  shows "\<exists>errs' w'. unwind st errs w = Some (errs', w')"
  using assms
proof (induction st arbitrary: errs w)
  case Nil
  then show ?case by simp
next
  case (Cons s st)
  then have "step_exit s w \<noteq> Hangs" by (simp add: always_ends_def)
  with Cons show ?case by (cases "step_exit s w") simp_all
qed

lemma always_ends_stack_exit:
  assumes "\<forall>s\<in>set st. always_ends (step_exit s)"
  shows "always_ends (stack_exit st)"
proof (rule always_endsI)
  fix w
  from unwind_ends [OF assms, of "[]" w] show "stack_exit st w \<noteq> Hangs"
    by (auto simp: stack_exit_def split: if_splits)
qed

lemma always_ends_composite_exit:
  assumes "\<forall>s\<in>set steps. always_ends (step_exit s)"
  shows "always_ends (step_exit (composite l steps))"
  using always_ends_stack_exit [of "rev steps"] assms by (simp add: composite_def)

lemma cx_ok_test_exists: "status cx_ok w h (test_exists p) \<noteq> 0"
  by (simp add: cx_ok_def test_exists_def)

lemma cx_mkfs_fails_test_exists: "status cx_mkfs_fails w h (test_exists p) \<noteq> 0"
  by (simp add: cx_mkfs_fails_def test_exists_def)

lemma nested_task_steps_bracketed:
  "\<forall>s\<in>set (nested_task_steps cx config).
     bracketed s (if step_label s = ''provision''
                  then marks (\<lambda>s. []) (take 3 (task_steps cx config)) else [])"
proof -
  have i: "\<forall>s\<in>set (take 3 (task_steps cx config)). bracketed s []"
    using task_steps_bracketed [of cx config] by (auto dest: in_set_takeD)
  have "bracketed (composite ''provision'' (take 3 (task_steps cx config)))
          (marks (\<lambda>s. []) (take 3 (task_steps cx config)))"
    by (rule composite_bracketed [OF i])
  moreover have "bracketed (task_steps cx config ! 3) []" "bracketed (task_steps cx config ! 4) []"
    using task_steps_bracketed [of cx config] by (simp_all add: task_steps_def Let_def)
  moreover have "step_label (task_steps cx config ! 3) = ''mkfs''"
    "step_label (task_steps cx config ! 4) = ''mount''"
    by (simp_all add: task_steps_def Let_def mkfs_def mount_def)
  ultimately show ?thesis by (simp add: nested_task_steps_def composite_def)
qed

lemma nested_task_exits_end:
  assumes "always_ends (dev_create_exit cx (task_role_images (task_norm_config cx config)))"
  shows "\<forall>s\<in>set (nested_task_steps cx config). always_ends (step_exit s)"
proof -
  from task_exits_end [OF assms]
  have a: "\<forall>s\<in>set (task_steps cx config). always_ends (step_exit s)" .
  then have "\<forall>s\<in>set (take 3 (task_steps cx config)). always_ends (step_exit s)"
    by (auto dest: in_set_takeD)
  from always_ends_composite_exit [OF this] a show ?thesis
    by (simp add: nested_task_steps_def task_steps_def Let_def)
qed

lemma nested_marks:
  "marks (\<lambda>s. if step_label s = ''provision''
                then marks (\<lambda>s. []) (take 3 (task_steps cx config)) else [])
     (nested_task_steps cx config) =
   [Enter ''provision'', Enter ''create_image'', Enter ''modprobe'', Enter ''dev_create'',
    Enter ''mkfs'', Enter ''mount'']"
  by (simp add: marks_def nested_task_steps_def task_steps_def Let_def composite_def
      create_image_def modprobe_def dev_create_def mkfs_def mount_def)

lemma ball_take: "\<forall>s\<in>set xs. P s \<Longrightarrow> \<forall>s\<in>set (take n xs). P s"
  by (auto dest: in_set_takeD)

subsection \<open>Reverse-order teardown\<close>

text \<open>
  Claim C1, as the code has it. For every list of provisioning steps, also when a step is
  itself a stack (a step bracketed by the calls of its inner stack): if every enter
  succeeds, the workload returns and no exit of a step waits forever, then the run ends,
  returning or reporting the aggregated exit failures, and the calls it made are the
  enters in list order, the workload, and then the exits in exact reverse order of the
  enters, each once. The steps of \<open>task\<close> (create_image, modprobe, dev_create, mkfs,
  mount) are such a list, flat or nested; of their exits only that of the mapping step
  can wait forever.
\<close>

theorem exits_reverse_of_enters:
  assumes br: "\<forall>s\<in>set steps. bracketed s (E s)"
      and tb: "transparent body"
      and ex: "\<forall>s\<in>set steps. always_ends (step_exit s)"
      and en: "enter_all steps [] w = (entered, Returned w1)"
      and bo: "body (w1 @ [Body]) = Returned w2"
  shows "\<exists>w'. (run_stack steps body w = Returned w' \<or>
               (\<exists>errs. run_stack steps body w = Raised (TeardownError errs) w')) \<and>
              calls w' = calls w @ marks E steps @ [Body] @ rev (map mirror (marks E steps))"
proof -
  from enter_all_calls [OF br en]
  have ent: "entered = rev steps" and c1: "calls w1 = calls w @ marks E steps" by simp_all
  from bo have "ends_in (body (w1 @ [Body])) w2" by (simp add: ends_in_def)
  with tb have "calls w2 = calls (w1 @ [Body])" unfolding transparent_def by blast
  then have c2: "calls w2 = calls w1 @ [Body]" by (simp add: calls_def)
  have rs: "run_stack steps body w = stack_exit (rev steps) w2"
    using en bo ent by (simp add: run_stack_def stack_enter_def)
  from ex have "\<forall>s\<in>set (rev steps). always_ends (step_exit s)" by simp
  from unwind_ends [OF this, of "[]" w2]
  obtain errs w' where u: "unwind (rev steps) [] w2 = Some (errs, w')" by blast
  from unwind_rev_calls [OF br u]
  have c3: "calls w' = calls w2 @ rev (map mirror (marks E steps))" .
  from rs u have "run_stack steps body w = Returned w' \<or>
      (\<exists>errs. run_stack steps body w = Raised (TeardownError errs) w')"
    by (auto simp: stack_exit_def)
  with c1 c2 c3 show ?thesis by auto
qed

theorem exits_reverse_of_enters_witness:
  "(\<exists>w'. (task cx_ok (CList [''client.0'']) Returned [] = Returned w' \<or>
         (\<exists>errs. task cx_ok (CList [''client.0'']) Returned [] = Raised (TeardownError errs) w')) \<and>
        calls w' =
          [Enter ''create_image'', Enter ''modprobe'', Enter ''dev_create'', Enter ''mkfs'',
           Enter ''mount'', Body,
           Exit ''mount'', Exit ''mkfs'', Exit ''dev_create'', Exit ''modprobe'',
           Exit ''create_image'']) \<and>
   (\<exists>w'. (run_stack (nested_task_steps cx_ok (CList [''client.0''])) Returned [] = Returned w' \<or>
         (\<exists>errs. run_stack (nested_task_steps cx_ok (CList [''client.0''])) Returned []
                    = Raised (TeardownError errs) w')) \<and>
        calls w' =
          [Enter ''provision'', Enter ''create_image'', Enter ''modprobe'', Enter ''dev_create'',
           Enter ''mkfs'', Enter ''mount'', Body,
           Exit ''mount'', Exit ''mkfs'', Exit ''dev_create'', Exit ''modprobe'',
           Exit ''create_image'', Exit ''provision''])"
proof -
  let ?cfg = "CList [''client.0''] :: props option config"
  let ?steps = "task_steps cx_ok ?cfg"
  let ?nested = "nested_task_steps cx_ok ?cfg"
  have de: "always_ends (dev_create_exit cx_ok (task_role_images (task_norm_config cx_ok ?cfg)))"
    by (rule always_ends_dev_create_exit) (rule cx_ok_test_exists)
  obtain entered w1 where en: "enter_all ?steps [] [] = (entered, Returned w1)"
    using task_enters_ok by blast
  have m: "marks (\<lambda>s. []) ?steps =
      [Enter ''create_image'', Enter ''modprobe'', Enter ''dev_create'', Enter ''mkfs'',
       Enter ''mount'']"
    by (simp add: marks_def task_steps_def Let_def create_image_def modprobe_def dev_create_def
          mkfs_def mount_def)
  from exits_reverse_of_enters [of ?steps "\<lambda>s. []" Returned "[]" entered w1 "w1 @ [Body]",
      OF task_steps_bracketed transparent_Returned task_exits_end [OF de] en refl]
  have a: "\<exists>w'. (task cx_ok ?cfg Returned [] = Returned w' \<or>
         (\<exists>errs. task cx_ok ?cfg Returned [] = Raised (TeardownError errs) w')) \<and>
        calls w' =
          [Enter ''create_image'', Enter ''modprobe'', Enter ''dev_create'', Enter ''mkfs'',
           Enter ''mount'', Body,
           Exit ''mount'', Exit ''mkfs'', Exit ''dev_create'', Exit ''modprobe'',
           Exit ''create_image'']"
    by (simp add: m task_def calls_def)
  have "\<exists>entered w1. enter_all ?nested [] [] = (entered, Returned w1)"
    by (simp add: nested_task_steps_def composite_def stack_enter_def cx_ok_def eval_defs)
  then obtain entered' w1' where en': "enter_all ?nested [] [] = (entered', Returned w1')"
    by blast
  from exits_reverse_of_enters [of ?nested _ Returned "[]" entered' w1' "w1' @ [Body]",
      OF nested_task_steps_bracketed transparent_Returned nested_task_exits_end [OF de] en' refl]
  have b: "\<exists>w'. (run_stack ?nested Returned [] = Returned w' \<or>
         (\<exists>errs. run_stack ?nested Returned [] = Raised (TeardownError errs) w')) \<and>
        calls w' =
          [Enter ''provision'', Enter ''create_image'', Enter ''modprobe'', Enter ''dev_create'',
           Enter ''mkfs'', Enter ''mount'', Body,
           Exit ''mount'', Exit ''mkfs'', Exit ''dev_create'', Exit ''modprobe'',
           Exit ''create_image'', Exit ''provision'']"
    by (simp add: nested_marks calls_def)
  from a b show ?thesis by simp
qed

text \<open>
  Where the symlink of a mapped image never disappears, every enter of \<open>task\<close> succeeds
  and the workload returns, but the run never ends: the exit of the mapping step waits
  forever, and the exits of the module step and of the image step never run.
\<close>

theorem exits_never_run_counterexample:
  "(\<exists>entered w1. enter_all (task_steps cx_unmap_waits (CList [''client.0''])) [] []
       = (entered, Returned w1)) \<and>
   task cx_unmap_waits (CList [''client.0'']) Returned [] = Hangs"
  by (simp add: run_stack_def stack_enter_def stack_exit_def cx_unmap_waits_def eval_defs
      while_loop_never)

text \<open>
  Claim C2, as the code has it. For every list of steps and every index \<open>k\<close>, the steps
  before \<open>k\<close> being plain or themselves stacks and the step \<open>k\<close> any step: if the enters
  before \<open>k\<close> succeed, the enter of step \<open>k\<close> raises \<open>e\<close> and no exit of an earlier step
  waits forever, then the run raises \<open>e\<close>; after the failed enter the only calls are the
  exits of the steps before \<open>k\<close>, in reverse order of their enters, so no later enter and
  no workload runs.
\<close>

theorem enter_failure_unwinds:
  assumes br: "\<forall>s\<in>set (take k steps). bracketed s (E s)"
      and ex: "\<forall>s\<in>set (take k steps). always_ends (step_exit s)"
      and k: "k < length steps"
      and en: "enter_all (take k steps) [] w = (entered, Returned w1)"
      and fl: "step_enter (steps ! k) (w1 @ [Enter (step_label (steps ! k))]) = Raised e w2"
  shows "\<exists>w'. run_stack steps body w = Raised e w' \<and>
              calls w1 = calls w @ marks E (take k steps) \<and>
              calls w' = calls w2 @ rev (map mirror (marks E (take k steps))) \<and>
              (transparent (step_enter (steps ! k)) \<longrightarrow>
                 calls w' = calls w @ marks E (take k steps) @ [Enter (step_label (steps ! k))]
                              @ rev (map mirror (marks E (take k steps))))"
proof -
  let ?pre = "take k steps"
  from enter_all_calls [OF br en]
  have ent: "entered = rev ?pre" and c1: "calls w1 = calls w @ marks E ?pre" by simp_all
  have sp: "steps = ?pre @ steps ! k # drop (Suc k) steps"
    using k by (simp add: id_take_nth_drop [symmetric])
  have ea: "enter_all steps [] w = (rev ?pre, Raised e w2)"
    by (subst sp, subst enter_all_append) (simp add: en ent [symmetric] fl)
  from ex have "\<forall>s\<in>set (rev ?pre). always_ends (step_exit s)" by simp
  from unwind_ends [OF this, of "[]" w2]
  obtain errs w' where u: "unwind (rev ?pre) [] w2 = Some (errs, w')" by blast
  from unwind_rev_calls [OF br u]
  have c3: "calls w' = calls w2 @ rev (map mirror (marks E ?pre))" .
  have r: "run_stack steps body w = Raised e w'"
    using ea u by (simp add: run_stack_def stack_enter_def)
  have c2: "calls w2 = calls w1 @ [Enter (step_label (steps ! k))]"
    if t: "transparent (step_enter (steps ! k))"
  proof -
    from fl have "ends_in (step_enter (steps ! k) (w1 @ [Enter (step_label (steps ! k))])) w2"
      by (simp add: ends_in_def)
    from transparentD [OF t this] show ?thesis by (simp add: calls_def)
  qed
  from c1 c2 c3 r show ?thesis by auto
qed

theorem enter_failure_unwinds_witness:
  "(\<exists>w'. task cx_mkfs_fails (CList [''client.0'']) Returned [] = Raised RemoteCommandError w' \<and>
        calls w' =
          [Enter ''create_image'', Enter ''modprobe'', Enter ''dev_create'', Enter ''mkfs'',
           Exit ''dev_create'', Exit ''modprobe'', Exit ''create_image'']) \<and>
   (\<exists>w'. run_stack (nested_task_steps cx_mkfs_fails (CList [''client.0''])) Returned []
          = Raised RemoteCommandError w' \<and>
        calls w' =
          [Enter ''provision'', Enter ''create_image'', Enter ''modprobe'', Enter ''dev_create'',
           Enter ''mkfs'',
           Exit ''dev_create'', Exit ''modprobe'', Exit ''create_image'', Exit ''provision''])"
proof -
  let ?cfg = "CList [''client.0''] :: props option config"
  let ?steps = "task_steps cx_mkfs_fails ?cfg"
  let ?nested = "nested_task_steps cx_mkfs_fails ?cfg"
  have de: "always_ends (dev_create_exit cx_mkfs_fails
      (task_role_images (task_norm_config cx_mkfs_fails ?cfg)))"
    by (rule always_ends_dev_create_exit) (rule cx_mkfs_fails_test_exists)
  have len: "3 < length ?steps" by (simp add: task_steps_def Let_def)
  have br: "\<forall>s\<in>set (take 3 ?steps). bracketed s []"
    using task_steps_bracketed [of cx_mkfs_fails ?cfg] by (auto dest: in_set_takeD)
  have ex: "\<forall>s\<in>set (take 3 ?steps). always_ends (step_exit s)"
    using task_exits_end [OF de] by (auto dest: in_set_takeD)
  have "\<exists>entered w1 w2. enter_all (take 3 ?steps) [] [] = (entered, Returned w1) \<and>
     step_enter (?steps ! 3) (w1 @ [Enter (step_label (?steps ! 3))]) = Raised RemoteCommandError w2"
    by (simp add: cx_mkfs_fails_def eval_defs)
  then obtain entered w1 w2 where
    en: "enter_all (take 3 ?steps) [] [] = (entered, Returned w1)" and
    fl: "step_enter (?steps ! 3) (w1 @ [Enter (step_label (?steps ! 3))]) = Raised RemoteCommandError w2"
    by blast
  have tr: "transparent (step_enter (?steps ! 3))"
    using task_steps_transparent [of cx_mkfs_fails ?cfg] len by simp
  have m3: "marks (\<lambda>s. []) (take 3 ?steps) =
      [Enter ''create_image'', Enter ''modprobe'', Enter ''dev_create'']"
    and l3: "step_label (?steps ! 3) = ''mkfs''"
    by (simp_all add: marks_def task_steps_def Let_def create_image_def modprobe_def
        dev_create_def mkfs_def)
  from enter_failure_unwinds [of 3 ?steps "\<lambda>s. []" "[]" entered w1 RemoteCommandError w2 Returned,
      OF br ex len en fl]
  obtain w' where r: "run_stack ?steps Returned [] = Raised RemoteCommandError w'"
    and c: "transparent (step_enter (?steps ! 3)) \<longrightarrow>
       calls w' = calls [] @ marks (\<lambda>s. []) (take 3 ?steps) @ [Enter (step_label (?steps ! 3))]
                    @ rev (map mirror (marks (\<lambda>s. []) (take 3 ?steps)))"
    by blast
  from c tr have "calls w' =
          [Enter ''create_image'', Enter ''modprobe'', Enter ''dev_create'', Enter ''mkfs'',
           Exit ''dev_create'', Exit ''modprobe'', Exit ''create_image'']"
    by (simp add: m3 l3 calls_def)
  with r have a: "\<exists>w'. task cx_mkfs_fails ?cfg Returned [] = Raised RemoteCommandError w' \<and>
        calls w' =
          [Enter ''create_image'', Enter ''modprobe'', Enter ''dev_create'', Enter ''mkfs'',
           Exit ''dev_create'', Exit ''modprobe'', Exit ''create_image'']"
    by (simp add: task_def)
  have len': "Suc 0 < length ?nested" by (simp add: nested_task_steps_def)
  have br': "\<forall>s\<in>set (take (Suc 0) ?nested).
     bracketed s (if step_label s = ''provision''
                  then marks (\<lambda>s. []) (take 3 ?steps) else [])"
    by (rule ball_take [OF nested_task_steps_bracketed])
  have ex': "\<forall>s\<in>set (take (Suc 0) ?nested). always_ends (step_exit s)"
    by (rule ball_take [OF nested_task_exits_end [OF de]])
  have "\<exists>entered w1 w2. enter_all (take (Suc 0) ?nested) [] [] = (entered, Returned w1) \<and>
     step_enter (?nested ! Suc 0) (w1 @ [Enter (step_label (?nested ! Suc 0))]) = Raised RemoteCommandError w2"
    by (simp add: nested_task_steps_def composite_def stack_enter_def cx_mkfs_fails_def eval_defs)
  then obtain entered' w1' w2' where
    en': "enter_all (take (Suc 0) ?nested) [] [] = (entered', Returned w1')" and
    fl': "step_enter (?nested ! Suc 0) (w1' @ [Enter (step_label (?nested ! Suc 0))])
            = Raised RemoteCommandError w2'"
    by blast
  have tr': "transparent (step_enter (?nested ! Suc 0))"
    using task_steps_transparent [of cx_mkfs_fails ?cfg] len
    by (simp add: nested_task_steps_def)
  have m1: "marks (\<lambda>s. if step_label s = ''provision''
                then marks (\<lambda>s. []) (take 3 ?steps) else []) (take (Suc 0) ?nested) =
      [Enter ''provision'', Enter ''create_image'', Enter ''modprobe'', Enter ''dev_create'']"
    and l1: "step_label (?nested ! Suc 0) = ''mkfs''"
    by (simp_all add: marks_def nested_task_steps_def task_steps_def Let_def composite_def
        create_image_def modprobe_def dev_create_def mkfs_def)
  from enter_failure_unwinds [of "Suc 0" ?nested _ "[]" entered' w1' RemoteCommandError w2' Returned,
      OF br' ex' len' en' fl']
  obtain w'' where r': "run_stack ?nested Returned [] = Raised RemoteCommandError w''"
    and c': "transparent (step_enter (?nested ! Suc 0)) \<longrightarrow>
       calls w'' = calls [] @ marks (\<lambda>s. if step_label s = ''provision''
                then marks (\<lambda>s. []) (take 3 ?steps) else []) (take (Suc 0) ?nested)
            @ [Enter (step_label (?nested ! Suc 0))]
            @ rev (map mirror (marks (\<lambda>s. if step_label s = ''provision''
                then marks (\<lambda>s. []) (take 3 ?steps) else []) (take (Suc 0) ?nested)))"
    by blast
  from c' tr' have "calls w'' =
          [Enter ''provision'', Enter ''create_image'', Enter ''modprobe'', Enter ''dev_create'',
           Enter ''mkfs'',
           Exit ''dev_create'', Exit ''modprobe'', Exit ''create_image'', Exit ''provision'']"
    by (simp add: m1 l1 calls_def)
  with r' have b: "\<exists>w'. run_stack ?nested Returned [] = Raised RemoteCommandError w' \<and>
        calls w' =
          [Enter ''provision'', Enter ''create_image'', Enter ''modprobe'', Enter ''dev_create'',
           Enter ''mkfs'',
           Exit ''dev_create'', Exit ''modprobe'', Exit ''create_image'', Exit ''provision'']"
    by simp
  from a b show ?thesis by simp
qed

text \<open>
  Where \<^verbatim>\<open>mkfs\<close> fails and the symlink of the mapped image never disappears, the enter
  of the filesystem step raises, but the unwind waits forever in the exit of the mapping
  step: the run never ends and the error is never surfaced.
\<close>

theorem enter_error_not_surfaced_counterexample:
  "(\<exists>entered w1 w2.
      enter_all (take 3 (task_steps cx_mkfs_fails_unmap_waits (CList [''client.0'']))) [] []
        = (entered, Returned w1) \<and>
      step_enter (task_steps cx_mkfs_fails_unmap_waits (CList [''client.0'']) ! 3)
          (w1 @ [Enter ''mkfs'']) = Raised RemoteCommandError w2) \<and>
   task cx_mkfs_fails_unmap_waits (CList [''client.0'']) Returned [] = Hangs"
  by (simp add: run_stack_def stack_enter_def stack_exit_def cx_mkfs_fails_unmap_waits_def
      eval_defs while_loop_never)

subsection \<open>Filesystem types\<close>

text \<open>
  Claim C10. For a target whose properties omit \<open>fs_type\<close>, the enter of the filesystem
  step, having dealt with the earlier targets, executes \<^verbatim>\<open>sudo mkfs -t ext3\<close> on the
  target's device on the target's host, fails if that command fails and goes on to the
  later targets otherwise. The runner step that \<open>xfstests\<close> builds for a target whose
  properties omit \<open>fs_type\<close> executes the test script with \<^verbatim>\<open>-f xfs\<close>.
\<close>

theorem mkfs_default_ext3:
  "(items None config = Some (pre @ (r, p) # post) \<and> or_empty p ''fs_type'' = None \<and>
    only cx r = [h] \<and> for_each (mkfs_one cx) pre w = Returned w1
      \<longrightarrow> step_enter (mkfs cx config) w =
            (if status cx w1 h [''sudo'', ''mkfs'', ''-t'', ''ext3'', dev_path (mkfs_image r p)] = 0
             then for_each (mkfs_one cx) post
                    (w1 @ [Exec h [''sudo'', ''mkfs'', ''-t'', ''ext3'', dev_path (mkfs_image r p)]])
             else Raised RemoteCommandError
                    (w1 @ [Exec h [''sudo'', ''mkfs'', ''-t'', ''ext3'', dev_path (mkfs_image r p)]]))) \<and>
   (or_empty q ''fs_type'' = None \<and> only cx r = [h] \<and>
    canonical_path cx r (PStr (dev_path (xfstests_test_image (or_empty q)))) w = Ok td w2 \<and>
    canonical_path cx r (PStr (dev_path (xfstests_scratch_image (or_empty q)))) w2 = Ok sd w3 \<and>
    status cx w3 h [''wget'', ''-O'', test_path, ''--'', test_url] = 0
      \<longrightarrow> step_enter (last (xfstests_steps cx r q)) w =
            remote_run cx h
              (Simple (xfstests_words (PStr ''xfs'') td sd (dict_get_none (or_empty q) ''tests'')))
              (w3 @ [Exec h [''wget'', ''-O'', test_path, ''--'', test_url]])) \<and>
   xfstests_words (PStr ''xfs'') td sd PNone =
     [''LD_LIBRARY_PATH=/tmp/cephtest/binary/usr/local/lib'',
      ''/tmp/cephtest/enable-coredump'',
      ''/tmp/cephtest/binary/usr/local/bin/ceph-coverage'',
      ''/tmp/cephtest/archive/coverage'',
      ''/usr/bin/sudo'', ''/bin/bash'', ''/tmp/cephtest/run_xfstests.sh'',
      ''-f'', ''xfs'', ''-t'', td, ''-s'', sd]"
proof (intro conjI impI)
  assume a: "items None config = Some (pre @ (r, p) # post) \<and> or_empty p ''fs_type'' = None \<and>
    only cx r = [h] \<and> for_each (mkfs_one cx) pre w = Returned w1"
  then have "mkfs_one cx (r, p) w1 =
      remote_run cx h (Simple [''sudo'', ''mkfs'', ''-t'', ''ext3'', dev_path (mkfs_image r p)]) w1"
    by (simp add: mkfs_one_def with_remote_def mkfs_words_def mkfs_fs_def dict_get_def py_str_def)
  with a show "step_enter (mkfs cx config) w =
            (if status cx w1 h [''sudo'', ''mkfs'', ''-t'', ''ext3'', dev_path (mkfs_image r p)] = 0
             then for_each (mkfs_one cx) post
                    (w1 @ [Exec h [''sudo'', ''mkfs'', ''-t'', ''ext3'', dev_path (mkfs_image r p)]])
             else Raised RemoteCommandError
                    (w1 @ [Exec h [''sudo'', ''mkfs'', ''-t'', ''ext3'', dev_path (mkfs_image r p)]]))"
    by (simp add: mkfs_def mkfs_enter_def for_each_append and_then_def remote_run_def)
next
  assume a: "or_empty q ''fs_type'' = None \<and> only cx r = [h] \<and>
    canonical_path cx r (PStr (dev_path (xfstests_test_image (or_empty q)))) w = Ok td w2 \<and>
    canonical_path cx r (PStr (dev_path (xfstests_scratch_image (or_empty q)))) w2 = Ok sd w3 \<and>
    status cx w3 h [''wget'', ''-O'', test_path, ''--'', test_url] = 0"
  have l: "last (xfstests_steps cx r q) = run_xfstests cx [(r, test_config (or_empty q))]"
    by (simp add: xfstests_steps_def Let_def)
  have g: "dict_get_none (test_config (or_empty q)) ''test_dev''
             = PStr (dev_path (xfstests_test_image (or_empty q)))"
    "dict_get_none (test_config (or_empty q)) ''scratch_dev''
             = PStr (dev_path (xfstests_scratch_image (or_empty q)))"
    "dict_get_none (test_config (or_empty q)) ''tests'' = dict_get_none (or_empty q) ''tests''"
    by (simp_all add: test_config_def dict_get_none_def dict_get_def)
  from a have f: "dict_get_none (test_config (or_empty q)) ''fs_type'' = PStr ''xfs''"
    by (simp add: test_config_def dict_get_none_def dict_get_def)
  have e1: "step_enter (last (xfstests_steps cx r q)) w =
      run_xfstests_one cx (r, test_config (or_empty q)) w"
    by (simp add: l run_xfstests_def run_xfstests_enter_def and_then_def split: outcome.splits)
  from a show "step_enter (last (xfstests_steps cx r q)) w =
            remote_run cx h
              (Simple (xfstests_words (PStr ''xfs'') td sd (dict_get_none (or_empty q) ''tests'')))
              (w3 @ [Exec h [''wget'', ''-O'', test_path, ''--'', test_url]])"
    by (simp add: e1 run_xfstests_one_def Let_def g f with_remote_def and_then_def
        remote_run_def [of cx h "Simple [''wget'', ''-O'', test_path, ''--'', test_url]"])
next
  show "xfstests_words (PStr ''xfs'') td sd PNone =
     [''LD_LIBRARY_PATH=/tmp/cephtest/binary/usr/local/lib'',
      ''/tmp/cephtest/enable-coredump'',
      ''/tmp/cephtest/binary/usr/local/bin/ceph-coverage'',
      ''/tmp/cephtest/archive/coverage'',
      ''/usr/bin/sudo'', ''/bin/bash'', ''/tmp/cephtest/run_xfstests.sh'',
      ''-f'', ''xfs'', ''-t'', td, ''-s'', sd]"
    by (simp add: xfstests_words_def truthy_def py_str_def test_path_def)
qed

theorem mkfs_default_ext3_witness:
  "step_enter (mkfs cx_ok (CList [''client.0''])) [] =
     Returned [Exec ''h1'' [''sudo'', ''mkfs'', ''-t'', ''ext3'', ''/dev/rbd/rbd/testimage.client.0'']] \<and>
   step_enter (last (xfstests_steps cx_ok ''client.0'' None)) [] =
     Returned [Exec ''h1'' [''readlink'', ''-f'', ''/dev/rbd/rbd/test_image''],
               Exec ''h1'' [''readlink'', ''-f'', ''/dev/rbd/rbd/scratch_image''],
               Exec ''h1'' [''wget'', ''-O'', test_path, ''--'', test_url],
               Exec ''h1'' (xfstests_words (PStr ''xfs'') [] [] PNone)] \<and>
   xfstests_words (PStr ''xfs'') [] [] PNone =
     [''LD_LIBRARY_PATH=/tmp/cephtest/binary/usr/local/lib'',
      ''/tmp/cephtest/enable-coredump'',
      ''/tmp/cephtest/binary/usr/local/bin/ceph-coverage'',
      ''/tmp/cephtest/archive/coverage'',
      ''/usr/bin/sudo'', ''/bin/bash'', ''/tmp/cephtest/run_xfstests.sh'',
      ''-f'', ''xfs'', ''-t'', [], ''-s'', []]"
proof -
  let ?w2 = "[Exec ''h1'' [''readlink'', ''-f'', ''/dev/rbd/rbd/test_image'']]"
  let ?w3 = "[Exec ''h1'' [''readlink'', ''-f'', ''/dev/rbd/rbd/test_image''],
              Exec ''h1'' [''readlink'', ''-f'', ''/dev/rbd/rbd/scratch_image'']]"
  have o: "only cx_ok ''client.0'' = [''h1'']"
    by (simp add: only_def cx_ok_def)
  have i: "items None (CList [''client.0''] :: props option config)
             = Some ([] @ (''client.0'', None) # [])"
    by (simp add: items_def)
  have c1: "canonical_path cx_ok ''client.0''
        (PStr (dev_path (xfstests_test_image (or_empty None)))) [] = Ok [] ?w2"
    by (simp add: canonical_path_def only_def cx_ok_def rstrip_nl_def dev_path_def
        xfstests_test_image_def dict_get_def or_empty_def py_str_def)
  have c2: "canonical_path cx_ok ''client.0''
        (PStr (dev_path (xfstests_scratch_image (or_empty None)))) ?w2 = Ok [] ?w3"
    by (simp add: canonical_path_def only_def cx_ok_def rstrip_nl_def dev_path_def
        xfstests_scratch_image_def dict_get_def or_empty_def py_str_def)
  have s: "status cx_ok ?w3 ''h1'' [''wget'', ''-O'', test_path, ''--'', test_url] = 0"
    by (simp add: cx_ok_def)
  have e: "or_empty None ''fs_type'' = None" by (simp add: or_empty_def)
  have f: "for_each (mkfs_one cx_ok) [] [] = Returned []" by simp
  have d: "dev_path (mkfs_image ''client.0'' None) = ''/dev/rbd/rbd/testimage.client.0''"
    by (simp add: dev_path_def mkfs_image_def default_image_name_def dict_get_def or_empty_def
        py_str_def)
  have t: "dict_get_none (or_empty None) ''tests'' = PNone"
    by (simp add: dict_get_none_def dict_get_def or_empty_def)
  have sm: "status cx_ok [] ''h1''
        [''sudo'', ''mkfs'', ''-t'', ''ext3'', ''/dev/rbd/rbd/testimage.client.0''] = 0"
    by (simp add: cx_ok_def)
  have rx: "remote_run cx_ok ''h1'' (Simple (xfstests_words (PStr ''xfs'') [] [] PNone))
        (?w3 @ [Exec ''h1'' [''wget'', ''-O'', test_path, ''--'', test_url]]) =
      Returned [Exec ''h1'' [''readlink'', ''-f'', ''/dev/rbd/rbd/test_image''],
               Exec ''h1'' [''readlink'', ''-f'', ''/dev/rbd/rbd/scratch_image''],
               Exec ''h1'' [''wget'', ''-O'', test_path, ''--'', test_url],
               Exec ''h1'' (xfstests_words (PStr ''xfs'') [] [] PNone)]"
    by (simp add: remote_run_def cx_ok_def xfstests_words_def)
  note th = mkfs_default_ext3 [where config = "CList [''client.0'']" and pre = "[]"
      and r = "''client.0''" and p = None and post = "[]" and cx = cx_ok and h = "''h1''"
      and w = "[]" and ?w1.0 = "[]" and q = None and td = "[]" and sd = "[]"
      and ?w2.0 = ?w2 and ?w3.0 = ?w3]
  from th i e o f have a: "step_enter (mkfs cx_ok (CList [''client.0''])) [] =
     Returned [Exec ''h1'' [''sudo'', ''mkfs'', ''-t'', ''ext3'', ''/dev/rbd/rbd/testimage.client.0'']]"
    unfolding d by (simp add: sm)
  from th e o c1 c2 s have b: "step_enter (last (xfstests_steps cx_ok ''client.0'' None)) [] =
     Returned [Exec ''h1'' [''readlink'', ''-f'', ''/dev/rbd/rbd/test_image''],
               Exec ''h1'' [''readlink'', ''-f'', ''/dev/rbd/rbd/scratch_image''],
               Exec ''h1'' [''wget'', ''-O'', test_path, ''--'', test_url],
               Exec ''h1'' (xfstests_words (PStr ''xfs'') [] [] PNone)]"
    unfolding t rx by blast
  from th have c: "xfstests_words (PStr ''xfs'') [] [] PNone =
     [''LD_LIBRARY_PATH=/tmp/cephtest/binary/usr/local/lib'',
      ''/tmp/cephtest/enable-coredump'',
      ''/tmp/cephtest/binary/usr/local/bin/ceph-coverage'',
      ''/tmp/cephtest/archive/coverage'',
      ''/usr/bin/sudo'', ''/bin/bash'', ''/tmp/cephtest/run_xfstests.sh'',
      ''-f'', ''xfs'', ''-t'', [], ''-s'', []]"
    by blast
  from a b c show ?thesis by blast
qed

subsection \<open>Normalizing twice\<close>

lemma replace_all_with_clients_id:
  "''all'' \<notin> fst ` set d \<Longrightarrow> replace_all_with_clients cx d = d"
  by (induction d) (auto simp: replace_all_with_clients_def)

lemma resolved_resolved: "resolved r (Some (resolved r q)) = resolved r q"
  by (simp add: resolved_def create_image_name_def create_image_size_def create_image_fmt_def
      mkfs_fs_def or_empty_def dict_get_def)

lemma replace_all_with_clients_keys:
  "''all'' \<notin> set (clients cx) \<Longrightarrow> ''all'' \<notin> fst ` set (replace_all_with_clients cx d)"
  by (induction d) (auto simp: replace_all_with_clients_def)

lemma replace_all_with_clients_twice:
  assumes "''all'' \<notin> set (clients cx)"
  shows "replace_all_with_clients cx (replace_all_with_clients cx d)
           = replace_all_with_clients cx d"
  by (rule replace_all_with_clients_id [OF replace_all_with_clients_keys [OF assms]])

text \<open>
  Claim C8. Where \<open>all\<close> is not itself the name of a client role, the head of \<open>task\<close>,
  which turns \<open>None\<close> into the alias and expands the alias of a dictionary, gives the same
  configuration when applied to its own output, for every raw configuration, and so the
  same images for the mapping and mount steps. Resolving the fields of a target from
  properties that are already resolved gives the same properties.
\<close>

theorem normalization_idempotent:
  "(''all'' \<notin> set (clients cx) \<longrightarrow>
      task_norm_config cx (task_norm_config cx config) = task_norm_config cx config \<and>
      task_role_images (task_norm_config cx (task_norm_config cx config))
        = task_role_images (task_norm_config cx config)) \<and>
   resolved r (Some (resolved r p)) = resolved r p"
proof (intro conjI impI)
  assume a: "''all'' \<notin> set (clients cx)"
  show i: "task_norm_config cx (task_norm_config cx config) = task_norm_config cx config"
    by (cases config)
       (simp_all add: task_norm_config_def replace_all_with_clients_twice [OF a])
  show "task_role_images (task_norm_config cx (task_norm_config cx config))
        = task_role_images (task_norm_config cx config)"
    by (simp only: i)
next
  show "resolved r (Some (resolved r p)) = resolved r p" by (rule resolved_resolved)
qed

theorem normalization_idempotent_witness:
  "task_norm_config cx_shared_host (CDict [(''all'', Some [''image_size'' \<mapsto> PInt 20480])])
     = CDict [(''client.0'', Some [''image_size'' \<mapsto> PInt 20480]),
              (''client.1'', Some [''image_size'' \<mapsto> PInt 20480])] \<and>
   task_norm_config cx_shared_host
       (task_norm_config cx_shared_host (CDict [(''all'', Some [''image_size'' \<mapsto> PInt 20480])]))
     = task_norm_config cx_shared_host (CDict [(''all'', Some [''image_size'' \<mapsto> PInt 20480])]) \<and>
   resolved ''client.0'' (Some [''image_size'' \<mapsto> PInt 20480]) ''image_name''
     = Some (PStr ''testimage.client.0'') \<and>
   resolved ''client.0'' (Some (resolved ''client.0'' (Some [''image_size'' \<mapsto> PInt 20480])))
     = resolved ''client.0'' (Some [''image_size'' \<mapsto> PInt 20480])"
proof -
  have c: "''all'' \<notin> set (clients cx_shared_host)" by (simp add: cx_shared_host_def)
  have e: "task_norm_config cx_shared_host (CDict [(''all'', Some [''image_size'' \<mapsto> PInt 20480])])
     = CDict [(''client.0'', Some [''image_size'' \<mapsto> PInt 20480]),
              (''client.1'', Some [''image_size'' \<mapsto> PInt 20480])]"
    by (simp add: task_norm_config_def replace_all_with_clients_def cx_shared_host_def)
  have n: "resolved ''client.0'' (Some [''image_size'' \<mapsto> PInt 20480]) ''image_name''
     = Some (PStr ''testimage.client.0'')"
    by (simp add: resolved_def create_image_name_def dict_get_def or_empty_def
        default_image_name_def)
  from normalization_idempotent [of cx_shared_host
      "CDict [(''all'', Some [''image_size'' \<mapsto> PInt 20480])]" "''client.0''"
      "Some [''image_size'' \<mapsto> PInt 20480]"] c e n
  show ?thesis by simp
qed

end
